theory Spec2Isabelle
  imports Main
begin

section \<open>JavaScript values, objects and the heap\<close>

text \<open>
  The model follows the class \<open>AirtablePlus\<close> of \<open>lib/AirtablePlus.js\<close> (the version
  with \<open>_chunkData\<close> and \<open>_handleBatch\<close>). Configuration objects are passed by reference and
  \<open>_mergeConfig\<close> writes into the object it is given, so they live on an explicit heap.
  Numbers are the integer-valued ones (\<open>NaN\<close> and fractions are outside the model); a caller's
  function is named by a tag; a connection handle (\<open>Airtable.base(id)\<close>) carries the serial
  number of its minting, the credential current when it was minted and the container it is
  bound to.
\<close>

datatype jsval =
    JUndefined
  | JNull
  | JBool bool
  | JNum int
  | JStr string
  | JFun nat
  | JBase nat jsval jsval
  | JRef nat

datatype jstype = TUndefined | TObject | TBoolean | TNumber | TString | TFunction

fun typeof :: "jsval \<Rightarrow> jstype" where
  "typeof JUndefined = TUndefined"
| "typeof JNull = TObject"
| "typeof (JBool b) = TBoolean"
| "typeof (JNum n) = TNumber"
| "typeof (JStr s) = TString"
| "typeof (JFun f) = TFunction"
| "typeof (JBase n k i) = TFunction"
| "typeof (JRef a) = TObject"

text \<open>\<open>!v\<close> is \<open>\<not> truthy v\<close>.\<close>

fun truthy :: "jsval \<Rightarrow> bool" where
  "truthy JUndefined = False"
| "truthy JNull = False"
| "truthy (JBool b) = b"
| "truthy (JNum n) = (n \<noteq> 0)"
| "truthy (JStr s) = (s \<noteq> [])"
| "truthy (JFun f) = True"
| "truthy (JBase n k i) = True"
| "truthy (JRef a) = True"

type_synonym obj = "string \<rightharpoonup> jsval"

text \<open>Reading a property: a key the object does not have reads as \<open>undefined\<close>.\<close>

definition getProp :: "obj \<Rightarrow> string \<Rightarrow> jsval" where
  "getProp ob k = (case ob k of None \<Rightarrow> JUndefined | Some v \<Rightarrow> v)"

datatype error =
    DataEmpty
  | KeyDataRequired
  | TypeError
  | StoreError string

section \<open>Records, requests and the world\<close>

datatype fieldval = FStr string | FBool bool | FNum int | FOther string

type_synonym fields = "(string \<times> fieldval) list"

record rawjson =
  rid :: string
  rfields :: fields
  createdTime :: "string option"

text \<open>
  What a row of a result can be: the record object of the store (\<open>Rich\<close>, with \<open>getId()\<close>),
  its \<open>_rawJson\<close> (\<open>Plain\<close>), the own-property copy \<open>{...el}\<close> of a record object, which has
  none of its methods (\<open>Shallow\<close>), or any other value a caller's transform returns.
\<close>

datatype row = Rich rawjson | Plain rawjson | Shallow rawjson | Value jsval

fun truthyRow :: "row \<Rightarrow> bool" where
  "truthyRow (Value v) = truthy v"
| "truthyRow _ = True"

text \<open>\<open>{...el}\<close>; for a value that is not a record the copy is not told apart from the value.\<close>

fun spreadRow :: "row \<Rightarrow> row" where
  "spreadRow (Rich r) = Shallow r"
| "spreadRow el = el"

text \<open>
  A call on \<open>base(tableName)\<close>: table name first. The optional last argument of the writes
  is \<open>{ typecast }\<close> (\<open>Some typecast\<close>) or \<open>undefined\<close> (\<open>None\<close>).
\<close>

datatype op =
    Select jsval "(string \<times> jsval) list"
  | Create jsval "fields option list" "jsval option"
  | Update jsval "(jsval \<times> fields option) list" "jsval option"
  | Replace jsval "(jsval \<times> fields option) list" "jsval option"
  | Destroy jsval "jsval list"
  | UpdateRow jsval jsval "fields option" "jsval option"
  | ReplaceRow jsval jsval "fields option" "jsval option"

text \<open>
  The world: the heap of configuration objects, the next free address, the process-wide
  \<open>Airtable.apiKey\<close>, the number of handles minted so far, the state of the remote store and
  the calls sent to it so far, each with the handle it went through.
\<close>

record 's world =
  heap :: "nat \<Rightarrow> obj"
  nextA :: nat
  apiKeyG :: jsval
  minted :: nat
  remote :: 's
  sent :: "(jsval \<times> op) list"

text \<open>
  What the class takes from outside the repository: the store behind the SDK (a call that
  resolves to an array of records, a call that resolves to one record), \<open>camelcase-keys\<close> on
  an array of rows, and the application of a caller's function to a row.
\<close>

record 's env =
  listOp :: "jsval \<Rightarrow> op \<Rightarrow> 's \<Rightarrow> (error + rawjson list) \<times> 's"
  rowOp :: "jsval \<Rightarrow> op \<Rightarrow> 's \<Rightarrow> (error + rawjson) \<times> 's"
  camelcaseKeys :: "row list \<Rightarrow> row list"
  callFn :: "nat \<Rightarrow> row \<Rightarrow> row"

section \<open>\<open>_mergeConfig\<close> and the constructor\<close>

text \<open>
  Modelled from the spec: \<open>Airtable.base\<close> belongs to the SDK, not to this repository. By the
  spec's \<open>connect(credential, containerID) -> ConnectionHandle\<close> it mints a new handle bound to
  the given container under the current process-wide credential; \<open>getId()\<close> of the handle is
  that container.
\<close>

definition Airtable_base :: "jsval \<Rightarrow> 's world \<Rightarrow> jsval \<times> 's world" where
  "Airtable_base baseID w =
     (JBase (minted w) (apiKeyG w) baseID, w\<lparr>minted := Suc (minted w)\<rparr>)"

text \<open>\<open>{...v}\<close> of a reference or of \<open>undefined\<close>.\<close>

definition spreadObj :: "jsval \<Rightarrow> 's world \<Rightarrow> obj" where
  "spreadObj v w = (case v of JRef a \<Rightarrow> heap w a | _ \<Rightarrow> Map.empty)"

definition alloc :: "obj \<Rightarrow> 's world \<Rightarrow> jsval \<times> 's world" where
  "alloc ob w =
     (JRef (nextA w), w\<lparr>heap := (heap w)(nextA w := ob), nextA := Suc (nextA w)\<rparr>)"

text \<open>
  \<open>if(typeof config === "object") { if(typeof config.transform !== "function")
  config.transform = undefined; ... }\<close>: the write goes to the caller's object.
\<close>

definition dropBadTransform :: "jsval \<Rightarrow> 's world \<Rightarrow> 's world" where
  "dropBadTransform config w =
     (case config of
        JRef a \<Rightarrow>
          if typeof (getProp (heap w a) ''transform'') \<noteq> TFunction
          then w\<lparr>heap := (heap w)(a := (heap w a)(''transform'' \<mapsto> JUndefined))\<rparr>
          else w
      | _ \<Rightarrow> w)"

text \<open>The local \<open>override\<close>: \<open>{ tableName: config }\<close> for a string, the object itself, else \<open>{}\<close>.\<close>

definition overrideOf :: "jsval \<Rightarrow> 's world \<Rightarrow> obj" where
  "overrideOf config w =
     (case config of
        JStr s \<Rightarrow> [''tableName'' \<mapsto> config]
      | JRef a \<Rightarrow> heap w a
      | _ \<Rightarrow> Map.empty)"

text \<open>\<open>let cfg = { ...this.config, ...override }\<close>, after the write to the caller's object.\<close>

definition spreadMerge :: "jsval \<Rightarrow> jsval \<Rightarrow> 's world \<Rightarrow> obj" where
  "spreadMerge thisConfig config w =
     spreadObj thisConfig (dropBadTransform config w)
       ++ overrideOf config (dropBadTransform config w)"

text \<open>\<open>if(cfg.apiKey !== Airtable.apiKey) { Airtable.apiKey = cfg.apiKey; cfg.base = ... }\<close>\<close>

definition rebindKey :: "obj \<Rightarrow> 's world \<Rightarrow> obj \<times> 's world" where
  "rebindKey cfg w =
     (if getProp cfg ''apiKey'' \<noteq> apiKeyG w
      then (let (h, w') = Airtable_base (getProp cfg ''baseID'')
                            (w\<lparr>apiKeyG := getProp cfg ''apiKey''\<rparr>)
            in (cfg(''base'' \<mapsto> h), w'))
      else (cfg, w))"

text \<open>
  \<open>if(!cfg.base || (cfg.baseID !== cfg.base.getId())) cfg.base = Airtable.base(cfg.baseID)\<close>.
  Only a handle has \<open>getId\<close>: on another truthy value the call is a TypeError.
\<close>

definition rebindBase :: "obj \<Rightarrow> 's world \<Rightarrow> (error + obj) \<times> 's world" where
  "rebindBase cfg w =
     (if \<not> truthy (getProp cfg ''base'')
      then (let (h, w') = Airtable_base (getProp cfg ''baseID'') w
            in (Inr (cfg(''base'' \<mapsto> h)), w'))
      else (case getProp cfg ''base'' of
              JBase n k i \<Rightarrow>
                if getProp cfg ''baseID'' \<noteq> i
                then (let (h, w') = Airtable_base (getProp cfg ''baseID'') w
                      in (Inr (cfg(''base'' \<mapsto> h)), w'))
                else (Inr cfg, w)
            | _ \<Rightarrow> (Inl TypeError, w)))"

text \<open>
  \<open>_mergeConfig(config)\<close>, with \<open>this.config\<close> as first argument. The new object \<open>cfg\<close> is put
  on the heap when it is returned; an error leaves it unreachable.
\<close>

definition mergeConfig :: "jsval \<Rightarrow> jsval \<Rightarrow> 's world \<Rightarrow> (error + jsval) \<times> 's world" where
  "mergeConfig thisConfig config w =
     (if \<not> truthy config then (Inr thisConfig, w)
      else
        let w1 = dropBadTransform config w;
            cfg = spreadMerge thisConfig config w;
            (cfg1, w2) = rebindKey cfg w1
        in (case rebindBase cfg1 w2 of
              (Inl e, w3) \<Rightarrow> (Inl e, w3)
            | (Inr cfg2, w3) \<Rightarrow> (let (r, w4) = alloc cfg2 w3 in (Inr r, w4))))"

text \<open>
  The constructor: the literal with the environment's defaults and the caller's \<open>config\<close>
  spread over them goes through \<open>_mergeConfig\<close> while \<open>this.config\<close> is still undefined. The
  result is the new \<open>this.config\<close>.
\<close>

definition newAirtablePlus ::
  "jsval \<Rightarrow> jsval \<Rightarrow> jsval \<Rightarrow> jsval \<Rightarrow> 's world \<Rightarrow> (error + jsval) \<times> 's world" where
  "newAirtablePlus envApiKey envBaseID envTableName config w =
     (let (lit, w1) =
            alloc ([''apiKey'' \<mapsto> envApiKey, ''baseID'' \<mapsto> envBaseID,
                    ''tableName'' \<mapsto> envTableName, ''camelCase'' \<mapsto> JBool False,
                    ''complex'' \<mapsto> JBool False, ''concurrency'' \<mapsto> JNum 1,
                    ''typecast'' \<mapsto> JBool False] ++ spreadObj config w) w
      in mergeConfig JUndefined lit w1)"

text \<open>\<open>h.getId()\<close> where \<open>h\<close> is a handle.\<close>

definition getId :: "jsval \<Rightarrow> jsval option" where
  "getId h = (case h of JBase n k i \<Rightarrow> Some i | _ \<Rightarrow> None)"

text \<open>
  The condition under which \<open>_mergeConfig\<close> mints a handle for the merged object \<open>cfg\<close>: the
  credential differs from the process-wide one, or there is no handle, or the handle is bound
  to another container.
\<close>

definition mustMint :: "obj \<Rightarrow> 's world \<Rightarrow> bool" where
  "mustMint cfg w =
     (getProp cfg ''apiKey'' \<noteq> apiKeyG w
      \<or> \<not> truthy (getProp cfg ''base'')
      \<or> (case getId (getProp cfg ''base'') of
            Some i \<Rightarrow> i \<noteq> getProp cfg ''baseID''
          | None \<Rightarrow> False))"

text \<open>\<open>typeof v === "function" || v === undefined\<close> on the own property \<open>transform\<close>.\<close>

definition transformSettled :: "obj \<Rightarrow> bool" where
  "transformSettled ob =
     (case ob ''transform'' of
        None \<Rightarrow> False
      | Some v \<Rightarrow> typeof v = TFunction \<or> v = JUndefined)"

section \<open>Chunking and the batch dispatcher\<close>

text \<open>The argument of a batch operation: \<open>Array.isArray(data)\<close> or not.\<close>

datatype 'a input = Scalar 'a | Arr "'a list"

text \<open>
  What \<open>_handleBatch\<close> returns: the array \<open>res\<close>, or \<open>res[0]\<close>, which is an element or, on the
  empty array, \<open>undefined\<close>.
\<close>

datatype 'r outcome = Single 'r | Many "'r list" | NoResult

text \<open>
  Modelled from the spec: the \<open>chunk\<close> package is a dependency that is not in the repository.
  By the spec it splits into consecutive chunks of exactly the given size, except the last,
  which holds the remainder: chunk \<open>x\<close> is the slice from \<open>x * sz\<close> to \<open>x * sz + sz\<close>, for
  \<open>x\<close> below \<open>ceil(length / sz)\<close>.
\<close>

definition chunk :: "'a list \<Rightarrow> nat \<Rightarrow> 'a list list" where
  "chunk collection sz =
     map (\<lambda>x. take sz (drop (x * sz) collection))
         [0 ..< (length collection + sz - 1) div sz]"

definition chunkData :: "'a input \<Rightarrow> 'a list list" where
  "chunkData data =
     (case data of
        Arr xs \<Rightarrow> if length xs > 10 then chunk xs 10 else [xs]
      | Scalar x \<Rightarrow> [ [x] ])"

text \<open>
  Modelled from the spec: \<open>p-map\<close> is a dependency. By the spec's dispatcher it applies the
  worker to the chunks in input order and returns the results in input order; the first
  failure fails the whole call. The model runs the workers one after the other, which is the
  constructor's default \<open>concurrency: 1\<close>; the option bounds the number of workers in flight
  and is not part of the result, and the package's own check of the option is not modelled.
\<close>

fun pMap ::
  "'a list \<Rightarrow> ('a \<Rightarrow> 'w \<Rightarrow> (error + 'b) \<times> 'w) \<Rightarrow> jsval \<Rightarrow> 'w \<Rightarrow> (error + 'b list) \<times> 'w" where
  "pMap [] mapper concurrency w = (Inr [], w)"
| "pMap (x # xs) mapper concurrency w =
     (case mapper x w of
        (Inl e, w1) \<Rightarrow> (Inl e, w1)
      | (Inr y, w1) \<Rightarrow>
          (case pMap xs mapper concurrency w1 of
             (Inl e, w2) \<Rightarrow> (Inl e, w2)
           | (Inr ys, w2) \<Rightarrow> (Inr (y # ys), w2)))"

text \<open>
  Modelled from the spec: \<open>array-flatten\<close> is a dependency; on the per-chunk result arrays,
  whose elements are rows and never arrays, it is the concatenation in order.
\<close>

definition flatten :: "'r list list \<Rightarrow> 'r list" where
  "flatten res = concat res"

text \<open>\<open>return res.length > 1 ? res : res[0]\<close>\<close>

definition collapse :: "'r list \<Rightarrow> 'r outcome" where
  "collapse res =
     (if length res > 1 then Many res
      else (case res of [] \<Rightarrow> NoResult | x # _ \<Rightarrow> Single x))"

text \<open>
  \<open>_handleBatch(data, { concurrency }, iterator)\<close>: the second parameter is destructured, which
  throws on \<open>undefined\<close> and \<open>null\<close>.
\<close>

definition handleBatch ::
  "'a input \<Rightarrow> jsval \<Rightarrow> ('a list \<Rightarrow> 's world \<Rightarrow> (error + 'r list) \<times> 's world) \<Rightarrow> 's world
     \<Rightarrow> (error + 'r outcome) \<times> 's world" where
  "handleBatch data config iterator w =
     (if config = JUndefined \<or> config = JNull then (Inl TypeError, w)
      else
        let concurrency = getProp (spreadObj config w) ''concurrency''
        in (case pMap (chunkData data) iterator concurrency w of
              (Inl e, w1) \<Rightarrow> (Inl e, w1)
            | (Inr res, w1) \<Rightarrow> (Inr (collapse (flatten res)), w1)))"

section \<open>The operations on records\<close>

text \<open>
  \<open>this._throttle(() => ...)\<close> is \<open>pThrottle(fn => fn(), 5, 1000)\<close>: it delays the start of
  the call and resolves to what the call resolves to. Time is not part of the model.
\<close>

definition throttle :: "('w \<Rightarrow> 'x) \<Rightarrow> 'w \<Rightarrow> 'x" where
  "throttle fn = fn"

text \<open>
  \<open>base(tableName).op(...)\<close> for a call that resolves to an array, and for one that resolves to
  a single record. A \<open>base\<close> that is not a handle cannot be called. Every call is recorded in
  \<open>sent\<close>.
\<close>

definition sdkList :: "'s env \<Rightarrow> jsval \<Rightarrow> op \<Rightarrow> 's world \<Rightarrow> (error + rawjson list) \<times> 's world" where
  "sdkList E base rq w =
     (case base of
        JBase n k i \<Rightarrow>
          (let (res, s') = listOp E base rq (remote w)
           in (res, w\<lparr>remote := s', sent := sent w @ [(base, rq)]\<rparr>))
      | _ \<Rightarrow> (Inl TypeError, w))"

definition sdkRow :: "'s env \<Rightarrow> jsval \<Rightarrow> op \<Rightarrow> 's world \<Rightarrow> (error + rawjson) \<times> 's world" where
  "sdkRow E base rq w =
     (case base of
        JBase n k i \<Rightarrow>
          (let (res, s') = rowOp E base rq (remote w)
           in (res, w\<lparr>remote := s', sent := sent w @ [(base, rq)]\<rparr>))
      | _ \<Rightarrow> (Inl TypeError, w))"

text \<open>\<open>const { ... } = cfg\<close>: destructuring throws on \<open>undefined\<close> and \<open>null\<close>.\<close>

definition destructure :: "jsval \<Rightarrow> 's world \<Rightarrow> error + obj" where
  "destructure cfg w =
     (if cfg = JUndefined \<or> cfg = JNull then Inl TypeError else Inr (spreadObj cfg w))"

text \<open>\<open>complex? record : record._rawJson\<close>\<close>

definition shape :: "jsval \<Rightarrow> rawjson \<Rightarrow> row" where
  "shape complex record = (if truthy complex then Rich record else Plain record)"

text \<open>\<open>typecast? { typecast } : undefined\<close>\<close>

definition typecastParams :: "jsval \<Rightarrow> jsval option" where
  "typecastParams typecast = (if truthy typecast then Some typecast else None)"

text \<open>The iterator of \<open>create\<close>, \<open>update\<close> and \<open>replace\<close>: one throttled call, then the shaping.\<close>

definition writeChunk ::
  "'s env \<Rightarrow> jsval \<Rightarrow> jsval \<Rightarrow> op \<Rightarrow> 's world \<Rightarrow> (error + row list) \<times> 's world" where
  "writeChunk E base complex rq w =
     (case throttle (sdkList E base rq) w of
        (Inl e, w1) \<Rightarrow> (Inl e, w1)
      | (Inr records, w1) \<Rightarrow> (Inr (map (shape complex) records), w1))"

text \<open>\<open>create(data, config)\<close>; \<open>None\<close> is a \<open>data\<close> that is \<open>null\<close> or \<open>undefined\<close>.\<close>

definition create ::
  "'s env \<Rightarrow> jsval \<Rightarrow> fields option input \<Rightarrow> jsval \<Rightarrow> 's world
     \<Rightarrow> (error + row outcome) \<times> 's world" where
  "create E thisConfig data config w =
     (if data = Scalar None \<or> data = Arr [] then (Inl DataEmpty, w)
      else
        (case mergeConfig thisConfig config w of
           (Inl e, w1) \<Rightarrow> (Inl e, w1)
         | (Inr cfg, w1) \<Rightarrow>
             (case destructure cfg w1 of
                Inl e \<Rightarrow> (Inl e, w1)
              | Inr c \<Rightarrow>
                  handleBatch data cfg
                    (\<lambda>items. writeChunk E (getProp c ''base'') (getProp c ''complex'')
                       (Create (getProp c ''tableName'') items
                          (typecastParams (getProp c ''typecast''))))
                    w1)))"

text \<open>The first argument of \<open>read\<close>: nothing, a table name, or the query parameters.\<close>

datatype rparams = NoParams | TableName string | Query "(string \<times> jsval) list"

text \<open>
  The caller's transform on the rows: \<open>records.map(el => transform({ ...el }))\<close>, then the
  filter on truthy results. A truthy \<open>transform\<close> that is not a caller's function cannot be
  called, which shows only when there is a row to call it on. (A connection handle in the place
  of \<open>transform\<close> is treated the same way; calling one is the SDK's business.)
\<close>

definition callTransform :: "'s env \<Rightarrow> nat \<Rightarrow> row list \<Rightarrow> row list" where
  "callTransform E f records = map (\<lambda>el. callFn E f (spreadRow el)) records"

definition applyTransform :: "'s env \<Rightarrow> jsval \<Rightarrow> row list \<Rightarrow> error + row list" where
  "applyTransform E transform records =
     (if truthy transform
      then (case transform of
              JFun f \<Rightarrow>
                (let transformed = filter truthyRow (callTransform E f records)
                 in Inr (if length transformed > 0 then transformed else records))
            | _ \<Rightarrow> if records = [] then Inr records else Inl TypeError)
      else Inr records)"

text \<open>
  The call \<open>base(tableName).select(params || {}).all()\<close> of \<open>read\<close>: a string as first argument
  is the table name and leaves the parameters empty.
\<close>

definition selectOf :: "rparams \<Rightarrow> obj \<Rightarrow> op" where
  "selectOf params c =
     Select (case params of TableName s \<Rightarrow> JStr s | _ \<Rightarrow> getProp c ''tableName'')
            (case params of Query q \<Rightarrow> q | _ \<Rightarrow> [])"

text \<open>
  \<open>records.map(el => complex? el : el._rawJson)\<close>, then
  \<open>if(camelCase) records = camelcaseKeys(records, { deep: true })\<close>.
\<close>

definition keyCased :: "'s env \<Rightarrow> jsval \<Rightarrow> jsval \<Rightarrow> rawjson list \<Rightarrow> row list" where
  "keyCased E complex camelCase els =
     (let records = map (shape complex) els
      in if truthy camelCase then camelcaseKeys E records else records)"

definition read ::
  "'s env \<Rightarrow> jsval \<Rightarrow> rparams \<Rightarrow> jsval \<Rightarrow> 's world \<Rightarrow> (error + row list) \<times> 's world" where
  "read E thisConfig params config w =
     (case mergeConfig thisConfig config w of
        (Inl e, w1) \<Rightarrow> (Inl e, w1)
      | (Inr cfg, w1) \<Rightarrow>
          (case destructure cfg w1 of
             Inl e \<Rightarrow> (Inl e, w1)
           | Inr c \<Rightarrow>
               (case throttle (sdkList E (getProp c ''base'') (selectOf params c)) w1 of
                  (Inl e, w2) \<Rightarrow> (Inl e, w2)
                | (Inr els, w2) \<Rightarrow>
                    (case applyTransform E (getProp c ''transform'')
                            (keyCased E (getProp c ''complex'') (getProp c ''camelCase'') els) of
                       Inl e \<Rightarrow> (Inl e, w2)
                     | Inr records \<Rightarrow> (Inr (filter truthyRow records), w2)))))"

text \<open>
  The two ways to call \<open>update\<close> and \<open>replace\<close>: \<open>(records, config)\<close> with an array of
  \<open>{ id, fields }\<close>, or \<open>(rowID, data, config)\<close>.
\<close>

datatype writeArgs =
    Batch "(jsval \<times> fields option) list" jsval
  | Row jsval "fields option" jsval

text \<open>The batch branch hands \<open>config\<close>, not \<open>cfg\<close>, to \<open>_handleBatch\<close>.\<close>

definition update ::
  "'s env \<Rightarrow> jsval \<Rightarrow> writeArgs \<Rightarrow> 's world \<Rightarrow> (error + row outcome) \<times> 's world" where
  "update E thisConfig args w =
     (let config = (case args of Batch data config \<Rightarrow> config | Row rowID data config \<Rightarrow> config)
      in (case mergeConfig thisConfig config w of
            (Inl e, w1) \<Rightarrow> (Inl e, w1)
          | (Inr cfg, w1) \<Rightarrow>
              (case destructure cfg w1 of
                 Inl e \<Rightarrow> (Inl e, w1)
               | Inr c \<Rightarrow>
                   (case args of
                      Batch data config \<Rightarrow>
                        handleBatch (Arr data) config
                          (\<lambda>items. writeChunk E (getProp c ''base'') (getProp c ''complex'')
                             (Update (getProp c ''tableName'') items
                                (typecastParams (getProp c ''typecast''))))
                          w1
                    | Row rowID data config \<Rightarrow>
                        (case throttle (sdkRow E (getProp c ''base'')
                                 (UpdateRow (getProp c ''tableName'') rowID data
                                    (typecastParams (getProp c ''typecast'')))) w1 of
                           (Inl e, w2) \<Rightarrow> (Inl e, w2)
                         | (Inr record, w2) \<Rightarrow>
                             (Inr (Single (shape (getProp c ''complex'') record)), w2))))))"

definition replace ::
  "'s env \<Rightarrow> jsval \<Rightarrow> writeArgs \<Rightarrow> 's world \<Rightarrow> (error + row outcome) \<times> 's world" where
  "replace E thisConfig args w =
     (let config = (case args of Batch data config \<Rightarrow> config | Row rowID data config \<Rightarrow> config)
      in (case mergeConfig thisConfig config w of
            (Inl e, w1) \<Rightarrow> (Inl e, w1)
          | (Inr cfg, w1) \<Rightarrow>
              (case destructure cfg w1 of
                 Inl e \<Rightarrow> (Inl e, w1)
               | Inr c \<Rightarrow>
                   (case args of
                      Batch data config \<Rightarrow>
                        handleBatch (Arr data) config
                          (\<lambda>items. writeChunk E (getProp c ''base'') (getProp c ''complex'')
                             (Replace (getProp c ''tableName'') items
                                (typecastParams (getProp c ''typecast''))))
                          w1
                    | Row rowID data config \<Rightarrow>
                        (case throttle (sdkRow E (getProp c ''base'')
                                 (ReplaceRow (getProp c ''tableName'') rowID data
                                    (typecastParams (getProp c ''typecast'')))) w1 of
                           (Inl e, w2) \<Rightarrow> (Inl e, w2)
                         | (Inr record, w2) \<Rightarrow>
                             (Inr (Single (shape (getProp c ''complex'') record)), w2))))))"

text \<open>
  \<open>delete(rowID, config)\<close>: without \<open>complex\<close> a deleted record is reported as
  \<open>{ id: record.id, fields: {}, createdTime: null }\<close>.
\<close>

definition deleted :: "jsval \<Rightarrow> rawjson \<Rightarrow> row" where
  "deleted complex record =
     (if truthy complex then Rich record
      else Plain \<lparr>rid = rid record, rfields = [], createdTime = None\<rparr>)"

definition delete ::
  "'s env \<Rightarrow> jsval \<Rightarrow> jsval input \<Rightarrow> jsval \<Rightarrow> 's world \<Rightarrow> (error + row outcome) \<times> 's world" where
  "delete E thisConfig rowID config w =
     (case mergeConfig thisConfig config w of
        (Inl e, w1) \<Rightarrow> (Inl e, w1)
      | (Inr cfg, w1) \<Rightarrow>
          (case destructure cfg w1 of
             Inl e \<Rightarrow> (Inl e, w1)
           | Inr c \<Rightarrow>
               handleBatch rowID cfg
                 (\<lambda>items w'.
                    case throttle (sdkList E (getProp c ''base'')
                           (Destroy (getProp c ''tableName'') items)) w' of
                      (Inl e, w2) \<Rightarrow> (Inl e, w2)
                    | (Inr records, w2) \<Rightarrow>
                        (Inr (map (deleted (getProp c ''complex'')) records), w2))
                 w1))"

section \<open>\<open>upsert\<close>\<close>

text \<open>
  The regular expression \<open>\s\<close> on the code units below 256 (strings are lists of 8-bit
  characters here): tab, line feed, vertical tab, form feed, carriage return, space and the
  no-break space.
\<close>

definition isSpace :: "char \<Rightarrow> bool" where
  "isSpace c = (of_char c \<in> set [9, 10, 11, 12, 13, 32, 160 :: nat])"

text \<open>\<open>_formatColumnFilter(columnName='')\<close>; \<open>None\<close> is the missing argument.\<close>

definition formatColumnFilter :: "string option \<Rightarrow> string" where
  "formatColumnFilter columnName =
     (let columnName = (case columnName of None \<Rightarrow> [] | Some s \<Rightarrow> s)
      in if list_ex isSpace columnName then ''{'' @ columnName @ ''}'' else columnName)"

text \<open>
  A number in a template literal. \<open>FNum n\<close> stands for an integer that a JavaScript number
  holds exactly, of magnitude at most \<open>2^53\<close>; these print as their plain decimal digits.
  Larger integers, which JavaScript rounds to a double and prints in its shortest round-trip
  form, are outside the model.
\<close>

fun digits :: "nat \<Rightarrow> string" where
  "digits n =
     (if n < 10 then [char_of (48 + n)]
      else digits (n div 10) @ [char_of (48 + n mod 10)])"

definition showInt :: "int \<Rightarrow> string" where
  "showInt i = (if i < 0 then CHR ''-'' # digits (nat (- i)) else digits (nat i))"

text \<open>
  \<open>`${v}`\<close> for a field value; \<open>None\<close> is \<open>undefined\<close>, and \<open>FOther s\<close> is a value of another
  type, given by the string it converts to.
\<close>

definition templateString :: "fieldval option \<Rightarrow> string" where
  "templateString v =
     (case v of
        None \<Rightarrow> ''undefined''
      | Some (FStr s) \<Rightarrow> s
      | Some (FBool b) \<Rightarrow> (if b then ''true'' else ''false'')
      | Some (FNum n) \<Rightarrow> showInt n
      | Some (FOther s) \<Rightarrow> s)"

text \<open>The \<open>switch (typeof formattedData)\<close> of \<open>upsert\<close>, then the interpolation.\<close>

definition formatValue :: "fieldval option \<Rightarrow> string" where
  "formatValue v =
     (case v of
        Some (FStr s) \<Rightarrow> [CHR 0x22] @ s @ [CHR 0x22]
      | Some (FBool b) \<Rightarrow> (if b then ''TRUE'' else ''FALSE'')
      | _ \<Rightarrow> templateString v)"

text \<open>\<open>cfg.complex? rec.getId() : rec.id\<close>\<close>

definition recordId :: "jsval \<Rightarrow> 's world \<Rightarrow> row \<Rightarrow> error + jsval" where
  "recordId complex w rec =
     (if truthy complex
      then (case rec of Rich r \<Rightarrow> Inr (JStr (rid r)) | _ \<Rightarrow> Inl TypeError)
      else (case rec of
              Rich r \<Rightarrow> Inr (JStr (rid r))
            | Plain r \<Rightarrow> Inr (JStr (rid r))
            | Shallow r \<Rightarrow> Inr (JStr (rid r))
            | Value v \<Rightarrow>
                (case v of
                   JRef a \<Rightarrow> Inr (getProp (heap w a) ''id'')
                 | JUndefined \<Rightarrow> Inl TypeError
                 | JNull \<Rightarrow> Inl TypeError
                 | _ \<Rightarrow> Inr JUndefined)))"

text \<open>\<open>rows.map(...)\<close> with a callback that can throw: the first throw ends the map.\<close>

fun mapE :: "('a \<Rightarrow> error + 'b) \<Rightarrow> 'a list \<Rightarrow> error + 'b list" where
  "mapE f [] = Inr []"
| "mapE f (x # xs) =
     (case f x of
        Inl e \<Rightarrow> Inl e
      | Inr y \<Rightarrow> (case mapE f xs of Inl e \<Rightarrow> Inl e | Inr ys \<Rightarrow> Inr (y # ys)))"

text \<open>
  \<open>`${this._formatColumnFilter(key)} = ${formattedData}`\<close> with \<open>data[key]\<close> formatted.
  The data object is given by its own properties: a key that is not an own property but names
  an inherited one (\<open>constructor\<close>, \<open>toString\<close> and the like, which JavaScript finds on the
  prototype) reads as \<open>undefined\<close> here and is outside the model.
\<close>

definition upsertFormula :: "string \<Rightarrow> fields \<Rightarrow> string" where
  "upsertFormula key data =
     formatColumnFilter (Some key) @ '' = '' @ formatValue (map_of data key)"

definition upsert ::
  "'s env \<Rightarrow> jsval \<Rightarrow> string option \<Rightarrow> fields option \<Rightarrow> jsval \<Rightarrow> 's world
     \<Rightarrow> (error + row outcome) \<times> 's world" where
  "upsert E thisConfig key data config w =
     (case key of
        None \<Rightarrow> (Inl KeyDataRequired, w)
      | Some k \<Rightarrow>
          (case data of
             None \<Rightarrow> (Inl KeyDataRequired, w)
           | Some d \<Rightarrow>
               if k = [] then (Inl KeyDataRequired, w)
               else
                 (case mergeConfig thisConfig config w of
                    (Inl e, w1) \<Rightarrow> (Inl e, w1)
                  | (Inr cfg, w1) \<Rightarrow>
                      (case read E thisConfig
                              (Query [(''filterByFormula'', JStr (upsertFormula k d))]) cfg w1 of
                         (Inl e, w2) \<Rightarrow> (Inl e, w2)
                       | (Inr rows, w2) \<Rightarrow>
                           if length rows = 0 then create E thisConfig (Scalar data) cfg w2
                           else
                             (case mapE (recordId (getProp (spreadObj cfg w2) ''complex'') w2)
                                     rows of
                                Inl e \<Rightarrow> (Inl e, w2)
                              | Inr ids \<Rightarrow>
                                  update E thisConfig
                                    (Batch (map (\<lambda>i. (i, data)) ids) cfg) w2)))))"

section \<open>Configurations in the heap\<close>

text \<open>
  Between two worlds, the objects that exist in the first are unchanged in the second.
\<close>

definition sameObjects :: "'s world \<Rightarrow> 's world \<Rightarrow> bool" where
  "sameObjects w w' = (nextA w \<le> nextA w' \<and> (\<forall>a < nextA w. heap w' a = heap w a))"

text \<open>
  The object at \<open>c\<close> is a configuration that \<open>_mergeConfig\<close> has returned for the instance
  whose \<open>this.config\<close> is at \<open>t\<close>: its \<open>transform\<close> is settled, its handle is bound to its
  \<open>baseID\<close>, and it has every key of the instance configuration.
\<close>

definition effective :: "'s world \<Rightarrow> nat \<Rightarrow> nat \<Rightarrow> bool" where
  "effective w t c =
     (t < nextA w \<and> c < nextA w
      \<and> transformSettled (heap w c)
      \<and> getId (getProp (heap w c) ''base'') = Some (getProp (heap w c) ''baseID'')
      \<and> dom (heap w t) \<subseteq> dom (heap w c))"


section \<open>A concrete instance\<close>

text \<open>
  The configuration of an instance made by
  \<open>new AirtablePlus({ apiKey: 'key', baseID: 'app1', tableName: 'Table 1', transform: f })\<close>,
  at address 0, and two objects a caller holds: \<open>{ baseID: 'app2' }\<close> at address 2 and
  \<open>{ transform: 'foo' }\<close> at address 3 and \<open>{ transform: g }\<close> at address 4. The remote store is the list of its records.
\<close>

definition demoConfig :: obj where
  "demoConfig =
     [''apiKey'' \<mapsto> JStr ''key'', ''baseID'' \<mapsto> JStr ''app1'',
      ''tableName'' \<mapsto> JStr ''Table 1'', ''camelCase'' \<mapsto> JBool False,
      ''complex'' \<mapsto> JBool False, ''concurrency'' \<mapsto> JNum 1,
      ''typecast'' \<mapsto> JBool False, ''transform'' \<mapsto> JFun 0,
      ''base'' \<mapsto> JBase 0 (JStr ''key'') (JStr ''app1'')]"

definition demoWorld :: "rawjson list world" where
  "demoWorld =
     \<lparr>heap = (\<lambda>_. Map.empty)
               (0 := demoConfig,
                2 := [''baseID'' \<mapsto> JStr ''app2''],
                3 := [''transform'' \<mapsto> JStr ''foo''],
                4 := [''transform'' \<mapsto> JFun 2]),
      nextA = 5, apiKeyG = JStr ''key'', minted = 1, remote = [], sent = []\<rparr>"

text \<open>The same world after another instance has rebound the process-wide credential.\<close>

definition rotatedWorld :: "rawjson list world" where
  "rotatedWorld = demoWorld\<lparr>apiKeyG := JStr ''other''\<rparr>"

text \<open>
  A store for the examples: \<open>select\<close> returns every record, \<open>create\<close> stores one record per
  item, \<open>update\<close> answers with one record per item, \<open>destroy\<close> removes the records with the
  given ids. Caller's function 0 returns nothing, function 1 returns its argument, function 2
  returns its argument for the record \<open>rec1\<close> only, and function 3 returns its argument when
  its field \<open>id\<close> (in lower case) is \<open>'1'\<close>. For \<open>camelcase-keys\<close> the examples use its effect
  on their own column names: \<open>ID\<close> becomes \<open>id\<close>, \<open>firstName\<close> stays.
\<close>

definition demoListOp ::
  "jsval \<Rightarrow> op \<Rightarrow> rawjson list \<Rightarrow> (error + rawjson list) \<times> rawjson list" where
  "demoListOp base rq s =
     (case rq of
        Select t q \<Rightarrow> (Inr s, s)
      | Create t items p \<Rightarrow>
          (let new = map (\<lambda>it. \<lparr>rid = ''rec1'',
                                  rfields = (case it of Some f \<Rightarrow> f | None \<Rightarrow> []),
                                  createdTime = Some ''now''\<rparr>) items
           in (Inr new, s @ new))
      | Update t items p \<Rightarrow>
          (Inr (map (\<lambda>it. \<lparr>rid = (case fst it of JStr x \<Rightarrow> x | _ \<Rightarrow> []),
                              rfields = (case snd it of Some f \<Rightarrow> f | None \<Rightarrow> []),
                              createdTime = Some ''now''\<rparr>) items), s)
      | Destroy t ids \<Rightarrow>
          (Inr (filter (\<lambda>r. List.member ids (JStr (rid r))) s),
           filter (\<lambda>r. \<not> List.member ids (JStr (rid r))) s)
      | _ \<Rightarrow> (Inl (StoreError ''unsupported''), s))"

definition demoCall :: "nat \<Rightarrow> row \<Rightarrow> row" where
  "demoCall f el =
     (if f = 0 then Value JUndefined
      else if f = 2 then
        (case el of Plain r \<Rightarrow> if rid r = ''rec1'' then el else Value JUndefined
         | _ \<Rightarrow> Value JUndefined)
      else if f = 3 then
        (case el of
           Plain r \<Rightarrow> if map_of (rfields r) ''id'' = Some (FStr ''1'') then el
                      else Value JUndefined
         | _ \<Rightarrow> Value JUndefined)
      else el)"

definition demoCamelKey :: "string \<Rightarrow> string" where
  "demoCamelKey k = (if k = ''ID'' then ''id'' else k)"

definition demoCamel :: "row list \<Rightarrow> row list" where
  "demoCamel records =
     map (\<lambda>el. case el of
                 Plain r \<Rightarrow>
                   Plain (r\<lparr>rfields := map (\<lambda>kv. (demoCamelKey (fst kv), snd kv)) (rfields r)\<rparr>)
               | _ \<Rightarrow> el) records"

definition demoEnv :: "rawjson list env" where
  "demoEnv =
     \<lparr>listOp = demoListOp,
      rowOp = (\<lambda>base rq s. (Inl (StoreError ''unsupported''), s)),
      camelcaseKeys = demoCamel,
      callFn = demoCall\<rparr>"

text \<open>Two records, and the world whose store holds them.\<close>

definition demoRec1 :: rawjson where
  "demoRec1 = \<lparr>rid = ''rec1'', rfields = [(''ID'', FStr ''1''), (''firstName'', FStr ''foo'')],
                createdTime = Some ''t1''\<rparr>"

definition demoRec2 :: rawjson where
  "demoRec2 = \<lparr>rid = ''rec2'', rfields = [(''ID'', FStr ''2''), (''firstName'', FStr ''bar'')],
                createdTime = Some ''t2''\<rparr>"

definition stockedWorld :: "rawjson list world" where
  "stockedWorld = demoWorld\<lparr>remote := [demoRec1, demoRec2]\<rparr>"

text \<open>
  The stocked world with another object of a caller at address 4:
  \<open>{ camelCase: true, transform: h }\<close>, \<open>h\<close> being function 3. And the first record with its
  keys in camel case.
\<close>

definition camelWorld :: "rawjson list world" where
  "camelWorld =
     stockedWorld\<lparr>heap := (heap stockedWorld)
                       (4 := [''camelCase'' \<mapsto> JBool True, ''transform'' \<mapsto> JFun 3])\<rparr>"

definition demoRec1Camel :: rawjson where
  "demoRec1Camel = \<lparr>rid = ''rec1'', rfields = [(''id'', FStr ''1''), (''firstName'', FStr ''foo'')],
                     createdTime = Some ''t1''\<rparr>"

text \<open>The data of an \<open>upsert\<close> on the key \<open>ID\<close>, and the record the store makes of it.\<close>

definition demoData :: fields where
  "demoData = [(''ID'', FStr ''1''), (''firstName'', FStr ''foo'')]"

definition demoCreated :: rawjson where
  "demoCreated = \<lparr>rid = ''rec1'', rfields = demoData, createdTime = Some ''now''\<rparr>"

section \<open>Properties of \<open>_mergeConfig\<close>\<close>

lemma getProp_upd [simp]:
  "getProp (ob(k \<mapsto> v)) k' = (if k' = k then v else getProp ob k')"
  by (simp add: getProp_def)

lemma mergeConfig_absent:
  "\<not> truthy config \<Longrightarrow> mergeConfig thisConfig config w = (Inr thisConfig, w)"
  by (simp add: mergeConfig_def)

lemma heap_dropBadTransform_other:
  "config \<noteq> JRef b \<Longrightarrow> heap (dropBadTransform config w) b = heap w b"
  by (auto simp: dropBadTransform_def split: jsval.splits)

lemma heap_dropBadTransform_self:
  "heap (dropBadTransform (JRef a) w) a =
     (if typeof (getProp (heap w a) ''transform'') = TFunction then heap w a
      else (heap w a)(''transform'' \<mapsto> JUndefined))"
  by (simp add: dropBadTransform_def)

lemma dropBadTransform_fields [simp]:
  "nextA (dropBadTransform config w) = nextA w"
  "apiKeyG (dropBadTransform config w) = apiKeyG w"
  "minted (dropBadTransform config w) = minted w"
  "remote (dropBadTransform config w) = remote w"
  "sent (dropBadTransform config w) = sent w"
  by (auto simp: dropBadTransform_def split: jsval.splits)

text \<open>The two rebinding steps together, by cases.\<close>

lemma rebind_cases:
  "(case rebindKey cfg w of (cfg1, w2) \<Rightarrow> rebindBase cfg1 w2) =
     (if mustMint cfg w
      then (Inr (cfg(''base'' \<mapsto>
                   JBase (minted w) (getProp cfg ''apiKey'') (getProp cfg ''baseID''))),
            w\<lparr>apiKeyG := getProp cfg ''apiKey'', minted := Suc (minted w)\<rparr>)
      else if getId (getProp cfg ''base'') = None then (Inl TypeError, w)
      else (Inr cfg, w))"
  by (cases "getProp cfg ''base''")
     (auto simp: rebindKey_def rebindBase_def Airtable_base_def getId_def mustMint_def Let_def)

lemma mergeConfig_truthy:
  assumes "truthy config"
  shows "mergeConfig thisConfig config w =
     (case (case rebindKey (spreadMerge thisConfig config w) (dropBadTransform config w) of
              (cfg1, w2) \<Rightarrow> rebindBase cfg1 w2) of
        (Inl e, w3) \<Rightarrow> (Inl e, w3)
      | (Inr cfg2, w3) \<Rightarrow>
          (Inr (JRef (nextA w3)),
           w3\<lparr>heap := (heap w3)(nextA w3 := cfg2), nextA := Suc (nextA w3)\<rparr>))"
  using assms by (simp add: mergeConfig_def Let_def alloc_def split: prod.splits sum.splits)

text \<open>What a merge with a present override returns, and the world it leaves.\<close>

lemma mergeConfig_result:
  assumes "truthy config"
  shows "mergeConfig thisConfig config w =
     (let pre = spreadMerge thisConfig config w; w1 = dropBadTransform config w
      in if mustMint pre w
         then (Inr (JRef (nextA w)),
               w1\<lparr>apiKeyG := getProp pre ''apiKey'', minted := Suc (minted w),
                  heap := (heap w1)(nextA w :=
                     pre(''base'' \<mapsto>
                       JBase (minted w) (getProp pre ''apiKey'') (getProp pre ''baseID''))),
                  nextA := Suc (nextA w)\<rparr>)
         else if getId (getProp pre ''base'') = None then (Inl TypeError, w1)
         else (Inr (JRef (nextA w)),
               w1\<lparr>heap := (heap w1)(nextA w := pre), nextA := Suc (nextA w)\<rparr>))"
proof -
  let ?pre = "spreadMerge thisConfig config w" and ?w1 = "dropBadTransform config w"
  have m: "mustMint ?pre ?w1 = mustMint ?pre w"
    by (simp add: mustMint_def)
  show ?thesis
    unfolding mergeConfig_truthy [OF assms] rebind_cases m by (simp add: Let_def)
qed

lemma mergeConfig_heap_other:
  assumes "b < nextA w" and "config \<noteq> JRef b"
  shows "heap (snd (mergeConfig thisConfig config w)) b = heap w b"
proof (cases "truthy config")
  case False
  then show ?thesis by (simp add: mergeConfig_absent)
next
  case True
  with assms show ?thesis
    by (simp add: mergeConfig_result Let_def heap_dropBadTransform_other)
qed

lemma mergeConfig_heap_override:
  assumes "a < nextA w"
  shows "heap (snd (mergeConfig thisConfig (JRef a) w)) a =
           (if typeof (getProp (heap w a) ''transform'') = TFunction then heap w a
            else (heap w a)(''transform'' \<mapsto> JUndefined))"
proof -
  have "heap (snd (mergeConfig thisConfig (JRef a) w)) a = heap (dropBadTransform (JRef a) w) a"
    using assms by (simp add: mergeConfig_result Let_def)
  then show ?thesis by (simp add: heap_dropBadTransform_self)
qed

lemma spreadMerge_key:
  assumes "k \<noteq> ''transform''"
  shows "spreadMerge thisConfig (JRef a) w k =
           (case heap w a k of Some v \<Rightarrow> Some v | None \<Rightarrow> spreadObj thisConfig w k)"
  using assms
  by (auto simp: spreadMerge_def overrideOf_def spreadObj_def dropBadTransform_def map_add_def
           split: option.splits jsval.splits)

lemma spreadMerge_transform:
  "spreadMerge thisConfig (JRef a) w ''transform'' =
     (if typeof (getProp (heap w a) ''transform'') = TFunction then heap w a ''transform''
      else Some JUndefined)"
  by (auto simp: spreadMerge_def overrideOf_def spreadObj_def dropBadTransform_def map_add_def
                 getProp_def
           split: option.splits jsval.splits)

lemmas demo_defs =
  demoWorld_def demoConfig_def rotatedWorld_def mergeConfig_def spreadMerge_def
  dropBadTransform_def overrideOf_def spreadObj_def rebindKey_def rebindBase_def alloc_def
  Airtable_base_def getProp_def getId_def mustMint_def Let_def

subsection \<open>C10: the caller's override object is written\<close>

text \<open>
  C10, as the claim states it, fails where it says that the caller's object is observably
  changed by every call: an object that has been through \<open>_mergeConfig\<close> once (a config object
  a caller passes to two operations) holds \<open>transform: undefined\<close> as an own property, its
  \<open>transform\<close> is not a function, and a second call leaves it exactly as it is.
\<close>

theorem mergeConfig_second_pass_counterexample:
  "typeof (getProp (heap (snd (mergeConfig (JRef 0) (JRef 2) demoWorld)) 2) ''transform'')
     \<noteq> TFunction
   \<and> heap (snd (mergeConfig (JRef 0) (JRef 2)
                   (snd (mergeConfig (JRef 0) (JRef 2) demoWorld)))) 2
       = heap (snd (mergeConfig (JRef 0) (JRef 2) demoWorld)) 2"
  by (simp add: demo_defs)

text \<open>
  C10, amended. For an object-typed override, \<open>_mergeConfig\<close> writes into the caller's own
  object: when its \<open>transform\<close> is not a function (also when the property is absent) the
  property is set to \<open>undefined\<close> on that object, and nothing else of it changes; when
  \<open>transform\<close> is a function the object is left as it was. The object is observably changed by
  the call exactly when its \<open>transform\<close> was neither a function nor already an own property
  holding \<open>undefined\<close>.
\<close>

theorem mergeConfig_writes_override:
  assumes "a < nextA w"
  shows "heap (snd (mergeConfig thisConfig (JRef a) w)) a =
           (if typeof (getProp (heap w a) ''transform'') = TFunction then heap w a
            else (heap w a)(''transform'' \<mapsto> JUndefined))
         \<and> ((heap (snd (mergeConfig thisConfig (JRef a) w)) a \<noteq> heap w a)
              = (typeof (getProp (heap w a) ''transform'') \<noteq> TFunction
                 \<and> heap w a ''transform'' \<noteq> Some JUndefined))"
proof -
  have neq: "(heap w a)(''transform'' \<mapsto> JUndefined) \<noteq> heap w a"
    if "heap w a ''transform'' \<noteq> Some JUndefined"
  proof
    assume "(heap w a)(''transform'' \<mapsto> JUndefined) = heap w a"
    then have "((heap w a)(''transform'' \<mapsto> JUndefined)) ''transform'' = heap w a ''transform''"
      by simp
    with that show False by simp
  qed
  have eq: "(heap w a)(''transform'' \<mapsto> JUndefined) = heap w a"
    if "heap w a ''transform'' = Some JUndefined"
    using that by (simp add: map_upd_triv)
  from neq eq have "((heap w a)(''transform'' \<mapsto> JUndefined) \<noteq> heap w a)
                      = (heap w a ''transform'' \<noteq> Some JUndefined)"
    by blast
  with mergeConfig_heap_override [OF assms, of thisConfig] show ?thesis by simp
qed

theorem mergeConfig_writes_override_witness:
  "2 < nextA demoWorld
   \<and> heap demoWorld 2 ''transform'' = None
   \<and> heap (snd (mergeConfig (JRef 0) (JRef 2) demoWorld)) 2
       = [''baseID'' \<mapsto> JStr ''app2'', ''transform'' \<mapsto> JUndefined]
   \<and> heap (snd (mergeConfig (JRef 0) (JRef 2) demoWorld)) 2 \<noteq> heap demoWorld 2"
proof -
  have h: "2 < nextA demoWorld" by (simp add: demoWorld_def)
  have t: "heap demoWorld 2 = [''baseID'' \<mapsto> JStr ''app2'']"
    by (simp add: demoWorld_def)
  show ?thesis
    using h mergeConfig_writes_override [OF h, of "JRef 0"]
    by (auto simp: t getProp_def)
qed

subsection \<open>C8: the instance defaults are not written\<close>

text \<open>
  C8. For every override argument (absent, a string, an object, also the instance
  configuration itself), \<open>_mergeConfig\<close> leaves the object \<open>this.config\<close> as it was, and a
  merge with a present override returns a new object, never \<open>this.config\<close>. The instance
  configuration is the one the constructor made: its own \<open>transform\<close> is a function or
  \<open>undefined\<close> (\<open>newAirtablePlus_settled\<close> below).
\<close>

theorem mergeConfig_keeps_instance:
  assumes "t < nextA w" and "transformSettled (heap w t)"
  shows "heap (snd (mergeConfig (JRef t) config w)) t = heap w t
     \<and> (truthy config \<longrightarrow> fst (mergeConfig (JRef t) config w) \<noteq> Inr (JRef t))"
proof (cases "config = JRef t")
  case False
  have "fst (mergeConfig (JRef t) config w) \<noteq> Inr (JRef t)" if "truthy config"
    using that assms(1) by (simp add: mergeConfig_result Let_def)
  then show ?thesis
    using mergeConfig_heap_other [OF assms(1) False] by simp
next
  case True
  have same: "(heap w t)(''transform'' \<mapsto> JUndefined) = heap w t"
    if "typeof (getProp (heap w t) ''transform'') \<noteq> TFunction"
  proof -
    from assms(2) that have "heap w t ''transform'' = Some JUndefined"
      by (auto simp: transformSettled_def getProp_def split: option.splits)
    then show ?thesis by (simp add: map_upd_triv)
  qed
  have "heap (snd (mergeConfig (JRef t) (JRef t) w)) t = heap w t"
    using mergeConfig_heap_override [OF assms(1), of "JRef t"] same by auto
  moreover have "fst (mergeConfig (JRef t) (JRef t) w) \<noteq> Inr (JRef t)"
    using assms(1) by (simp add: mergeConfig_result Let_def)
  ultimately show ?thesis using True by simp
qed

theorem mergeConfig_keeps_instance_witness:
  "0 < nextA demoWorld \<and> transformSettled (heap demoWorld 0)
   \<and> heap (snd (mergeConfig (JRef 0) (JRef 0) demoWorld)) 0 = demoConfig
   \<and> heap (snd (mergeConfig (JRef 0) (JRef 3) demoWorld)) 0 = demoConfig
   \<and> fst (mergeConfig (JRef 0) (JRef 3) demoWorld) = Inr (JRef 5)"
proof -
  have h: "0 < nextA demoWorld" by (simp add: demoWorld_def)
  have s: "transformSettled (heap demoWorld 0)"
    by (simp add: demoWorld_def demoConfig_def transformSettled_def)
  have d: "heap demoWorld 0 = demoConfig" by (simp add: demoWorld_def)
  have r: "fst (mergeConfig (JRef 0) (JRef 3) demoWorld) = Inr (JRef 5)"
    by (simp add: demo_defs)
  show ?thesis
    using h s r mergeConfig_keeps_instance [OF h s, of "JRef 0"]
      mergeConfig_keeps_instance [OF h s, of "JRef 3"]
    by (simp add: d)
qed

text \<open>The constructor establishes what C8 assumes of the instance configuration.\<close>

lemma newAirtablePlus_settled:
  assumes "newAirtablePlus envApiKey envBaseID envTableName config w = (Inr r, w')"
  shows "r = JRef (Suc (nextA w)) \<and> Suc (nextA w) < nextA w'
     \<and> transformSettled (heap w' (Suc (nextA w)))
     \<and> getId (getProp (heap w' (Suc (nextA w))) ''base'')
         = Some (getProp (heap w' (Suc (nextA w))) ''baseID'')"
proof -
  let ?lit = "[''apiKey'' \<mapsto> envApiKey, ''baseID'' \<mapsto> envBaseID,
               ''tableName'' \<mapsto> envTableName, ''camelCase'' \<mapsto> JBool False,
               ''complex'' \<mapsto> JBool False, ''concurrency'' \<mapsto> JNum 1,
               ''typecast'' \<mapsto> JBool False] ++ spreadObj config w"
  let ?w1 = "w\<lparr>heap := (heap w)(nextA w := ?lit), nextA := Suc (nextA w)\<rparr>"
  let ?pre = "spreadMerge JUndefined (JRef (nextA w)) ?w1"
  have m: "mergeConfig JUndefined (JRef (nextA w)) ?w1 = (Inr r, w')"
    using assms by (simp add: newAirtablePlus_def alloc_def)
  have t: "transformSettled ?pre"
    by (auto simp: transformSettled_def spreadMerge_transform getProp_def split: option.splits)
  have t': "transformSettled (?pre(''base'' \<mapsto> h))" for h
    using t by (simp add: transformSettled_def)
  show ?thesis
  proof (cases "mustMint ?pre ?w1")
    case True
    with m t' show ?thesis
      by (auto simp: mergeConfig_result Let_def getId_def)
  next
    case False
    with m have "getId (getProp ?pre ''base'') \<noteq> None"
      by (auto simp: mergeConfig_result Let_def split: if_splits)
    with False have "getId (getProp ?pre ''base'') = Some (getProp ?pre ''baseID'')"
      by (auto simp: mustMint_def split: option.splits)
    with False m t show ?thesis
      by (auto simp: mergeConfig_result Let_def split: if_splits)
  qed
qed

subsection \<open>C2: the merge with an object override\<close>

text \<open>
  C2, as the claim states it, fails: in the instance above merged with \<open>{ baseID: 'app2' }\<close>
  the keys \<open>base\<close> and \<open>transform\<close> are absent from the override and do not keep their
  instance values. The handle is minted anew for the other container, and \<open>transform\<close> is
  \<open>undefined\<close> in the result.
\<close>

theorem mergeConfig_retains_counterexample:
  "heap demoWorld 2 ''base'' = None
   \<and> heap demoWorld 2 ''transform'' = None
   \<and> fst (mergeConfig (JRef 0) (JRef 2) demoWorld) = Inr (JRef 5)
   \<and> getProp (heap demoWorld 0) ''base'' = JBase 0 (JStr ''key'') (JStr ''app1'')
   \<and> getProp (heap (snd (mergeConfig (JRef 0) (JRef 2) demoWorld)) 5) ''base''
       = JBase 1 (JStr ''key'') (JStr ''app2'')
   \<and> getProp (heap demoWorld 0) ''transform'' = JFun 0
   \<and> getProp (heap (snd (mergeConfig (JRef 0) (JRef 2) demoWorld)) 5) ''transform''
       = JUndefined"
  by (simp add: demo_defs)

text \<open>
  C2, amended. For an object override, \<open>_mergeConfig\<close> returns a new object in which every
  key other than \<open>transform\<close> and the derived handle \<open>base\<close> has the override's value when
  the override has the key and the instance's value otherwise; \<open>transform\<close> is the override's
  when that is a function, and \<open>undefined\<close> when the override supplies a \<open>transform\<close> that is
  not a function.
\<close>

theorem mergeConfig_object_override:
  assumes "mergeConfig thisConfig (JRef a) w = (Inr r, w')"
  shows "r = JRef (nextA w)
     \<and> (\<forall>k. k \<noteq> ''transform'' \<and> k \<noteq> ''base'' \<longrightarrow>
            heap w' (nextA w) k =
              (case heap w a k of Some v \<Rightarrow> Some v | None \<Rightarrow> spreadObj thisConfig w k))
     \<and> (typeof (getProp (heap w a) ''transform'') = TFunction \<longrightarrow>
            heap w' (nextA w) ''transform'' = heap w a ''transform'')
     \<and> (heap w a ''transform'' \<noteq> None
          \<and> typeof (getProp (heap w a) ''transform'') \<noteq> TFunction \<longrightarrow>
            heap w' (nextA w) ''transform'' = Some JUndefined)"
proof -
  let ?pre = "spreadMerge thisConfig (JRef a) w"
  have r: "r = JRef (nextA w)"
    using assms by (simp add: mergeConfig_result Let_def split: if_splits)
  have h: "\<forall>k. k \<noteq> ''base'' \<longrightarrow> heap w' (nextA w) k = ?pre k"
    using assms by (auto simp: mergeConfig_result Let_def split: if_splits)
  show ?thesis
    using r h by (simp add: spreadMerge_key spreadMerge_transform)
qed

theorem mergeConfig_object_override_witness:
  "mergeConfig (JRef 0) (JRef 3) demoWorld
     = (Inr (JRef 5), snd (mergeConfig (JRef 0) (JRef 3) demoWorld))
   \<and> heap demoWorld 3 ''transform'' = Some (JStr ''foo'')
   \<and> heap (snd (mergeConfig (JRef 0) (JRef 3) demoWorld)) 5 ''tableName''
       = Some (JStr ''Table 1'')
   \<and> heap (snd (mergeConfig (JRef 0) (JRef 3) demoWorld)) 5 ''transform'' = Some JUndefined"
proof -
  define wa where "wa = snd (mergeConfig (JRef 0) (JRef 3) demoWorld)"
  have m: "mergeConfig (JRef 0) (JRef 3) demoWorld = (Inr (JRef 5), wa)"
    unfolding wa_def by (simp add: demo_defs)
  have n: "nextA demoWorld = 5" by (simp add: demoWorld_def)
  have o: "heap demoWorld 3 = [''transform'' \<mapsto> JStr ''foo'']"
    by (simp add: demoWorld_def)
  have i: "spreadObj (JRef 0) demoWorld ''tableName'' = Some (JStr ''Table 1'')"
    by (simp add: spreadObj_def demoWorld_def demoConfig_def)
  have r: "heap wa 5 ''tableName'' = Some (JStr ''Table 1'')
           \<and> heap wa 5 ''transform'' = Some JUndefined"
    using mergeConfig_object_override [OF m] by (simp add: n o i getProp_def)
  have t: "heap demoWorld 3 ''transform'' = Some (JStr ''foo'')"
    by (simp add: o)
  show ?thesis
    using m r t unfolding wa_def by blast
qed

subsection \<open>C7: the connection handle of the effective configuration\<close>

text \<open>
  C7, as the claim states it for every call, fails on a call with an absent override: in a
  world where the process-wide credential is no longer the instance's, \<open>_mergeConfig()\<close>
  returns the instance configuration with its existing handle and mints nothing.
\<close>

theorem mergeConfig_absent_reuses_counterexample:
  "getProp (heap rotatedWorld 0) ''apiKey'' \<noteq> apiKeyG rotatedWorld
   \<and> mergeConfig (JRef 0) JUndefined rotatedWorld = (Inr (JRef 0), rotatedWorld)
   \<and> getProp (heap rotatedWorld 0) ''base'' = JBase 0 (JStr ''key'') (JStr ''app1'')"
  by (simp add: demo_defs)

text \<open>
  C7, amended. A call with an absent (falsy) override returns \<open>this.config\<close> and changes
  nothing. For every call with a present override (a string, an object or another truthy
  value) that returns, the result is a new object whose handle is bound to the merged
  \<open>baseID\<close>, and the process-wide credential is the merged \<open>apiKey\<close>; a handle is minted,
  exactly one, when the merged \<open>apiKey\<close> differs from the process-wide credential, or the
  merged object has no handle, or its handle is bound to another container; otherwise nothing
  is minted and the handle of the merged object is the one returned.
\<close>

theorem mergeConfig_handle:
  assumes "mergeConfig thisConfig config w = (Inr r, w')"
  shows "(\<not> truthy config \<longrightarrow> r = thisConfig \<and> w' = w)
     \<and> (truthy config \<longrightarrow>
          r = JRef (nextA w)
          \<and> getId (getProp (heap w' (nextA w)) ''base'')
              = Some (getProp (heap w' (nextA w)) ''baseID'')
          \<and> getProp (heap w' (nextA w)) ''baseID''
              = getProp (spreadMerge thisConfig config w) ''baseID''
          \<and> apiKeyG w' = getProp (spreadMerge thisConfig config w) ''apiKey''
          \<and> (if mustMint (spreadMerge thisConfig config w) w
              then getProp (heap w' (nextA w)) ''base''
                     = JBase (minted w) (getProp (spreadMerge thisConfig config w) ''apiKey'')
                         (getProp (spreadMerge thisConfig config w) ''baseID'')
                   \<and> minted w' = Suc (minted w)
              else getProp (heap w' (nextA w)) ''base''
                     = getProp (spreadMerge thisConfig config w) ''base''
                   \<and> minted w' = minted w))"
proof (cases "truthy config")
  case False
  with assms show ?thesis by (simp add: mergeConfig_absent)
next
  case True
  let ?pre = "spreadMerge thisConfig config w"
  show ?thesis
  proof (cases "mustMint ?pre w")
    case m: True
    with True assms show ?thesis
      by (auto simp: mergeConfig_result Let_def getId_def)
  next
    case m: False
    then have k: "getProp ?pre ''apiKey'' = apiKeyG w" by (simp add: mustMint_def)
    from m True assms have "getId (getProp ?pre ''base'') \<noteq> None"
      by (auto simp: mergeConfig_result Let_def split: if_splits)
    with m have "getId (getProp ?pre ''base'') = Some (getProp ?pre ''baseID'')"
      by (auto simp: mustMint_def split: option.splits)
    with m k True assms show ?thesis
      by (auto simp: mergeConfig_result Let_def split: if_splits)
  qed
qed

theorem mergeConfig_handle_witness:
  "mergeConfig (JRef 0) (JStr ''Table 2'') rotatedWorld
     = (Inr (JRef 5), snd (mergeConfig (JRef 0) (JStr ''Table 2'') rotatedWorld))
   \<and> mustMint (spreadMerge (JRef 0) (JStr ''Table 2'') rotatedWorld) rotatedWorld
   \<and> getProp (heap (snd (mergeConfig (JRef 0) (JStr ''Table 2'') rotatedWorld)) 5) ''base''
       = JBase 1 (JStr ''key'') (JStr ''app1'')
   \<and> apiKeyG (snd (mergeConfig (JRef 0) (JStr ''Table 2'') rotatedWorld)) = JStr ''key''
   \<and> mergeConfig (JRef 0) (JStr ''Table 2'') demoWorld
     = (Inr (JRef 5), snd (mergeConfig (JRef 0) (JStr ''Table 2'') demoWorld))
   \<and> \<not> mustMint (spreadMerge (JRef 0) (JStr ''Table 2'') demoWorld) demoWorld
   \<and> getProp (heap (snd (mergeConfig (JRef 0) (JStr ''Table 2'') demoWorld)) 5) ''base''
       = JBase 0 (JStr ''key'') (JStr ''app1'')
   \<and> minted (snd (mergeConfig (JRef 0) (JStr ''Table 2'') demoWorld)) = 1"
proof -
  define wa where "wa = snd (mergeConfig (JRef 0) (JStr ''Table 2'') rotatedWorld)"
  define wb where "wb = snd (mergeConfig (JRef 0) (JStr ''Table 2'') demoWorld)"
  have m1: "mergeConfig (JRef 0) (JStr ''Table 2'') rotatedWorld = (Inr (JRef 5), wa)"
    unfolding wa_def by (simp add: demo_defs)
  have m2: "mergeConfig (JRef 0) (JStr ''Table 2'') demoWorld = (Inr (JRef 5), wb)"
    unfolding wb_def by (simp add: demo_defs)
  have p1: "mustMint (spreadMerge (JRef 0) (JStr ''Table 2'') rotatedWorld) rotatedWorld"
    by (simp add: demo_defs)
  have p2: "\<not> mustMint (spreadMerge (JRef 0) (JStr ''Table 2'') demoWorld) demoWorld"
    by (simp add: demo_defs)
  have v: "getProp (spreadMerge (JRef 0) (JStr ''Table 2'') rotatedWorld) ''apiKey'' = JStr ''key''"
    "getProp (spreadMerge (JRef 0) (JStr ''Table 2'') rotatedWorld) ''baseID'' = JStr ''app1''"
    "getProp (spreadMerge (JRef 0) (JStr ''Table 2'') demoWorld) ''base''
       = JBase 0 (JStr ''key'') (JStr ''app1'')"
    "nextA rotatedWorld = 5" "nextA demoWorld = 5" "minted rotatedWorld = 1"
    "minted demoWorld = 1"
    by (simp_all add: demo_defs)
  have r1: "getProp (heap wa 5) ''base'' = JBase 1 (JStr ''key'') (JStr ''app1'')
            \<and> apiKeyG wa = JStr ''key''"
    using mergeConfig_handle [OF m1] p1 by (simp add: v)
  have r2: "getProp (heap wb 5) ''base'' = JBase 0 (JStr ''key'') (JStr ''app1'')
            \<and> minted wb = 1"
    using mergeConfig_handle [OF m2] p2 by (simp add: v)
  show ?thesis
    using m1 m2 p1 p2 r1 r2 unfolding wa_def wb_def by blast
qed

text \<open>A merge with a present override returns unless the merged \<open>base\<close> is a truthy value
  that is not a handle.\<close>

lemma mergeConfig_returns:
  assumes "truthy config"
    and "mustMint (spreadMerge thisConfig config w) w
         \<or> getId (getProp (spreadMerge thisConfig config w) ''base'') \<noteq> None"
  shows "\<exists>w'. mergeConfig thisConfig config w = (Inr (JRef (nextA w)), w')"
  using assms by (auto simp: mergeConfig_result Let_def)

section \<open>Properties of the chunking and of \<open>_handleBatch\<close>\<close>

lemma concat_chunk_prefix:
  "concat (map (\<lambda>x. take n (drop (x * n) xs)) [0 ..< k]) = take (k * n) xs"
proof (induction k)
  case 0
  show ?case by simp
next
  case (Suc k)
  have "take (k * n) xs @ take n (drop (k * n) xs) = take (k * n + n) xs"
    by (simp add: take_add)
  with Suc show ?case by (simp add: add.commute)
qed

lemma concat_chunk: "0 < n \<Longrightarrow> concat (chunk xs n) = xs"
proof -
  assume n: "0 < n"
  have "length xs \<le> ((length xs + n - 1) div n) * n"
  proof -
    have "(length xs + n - 1) mod n < n" using n by simp
    moreover have "((length xs + n - 1) div n) * n + (length xs + n - 1) mod n
                     = length xs + n - 1"
      by simp
    ultimately show ?thesis by linarith
  qed
  then show ?thesis by (simp add: chunk_def concat_chunk_prefix)
qed

lemma length_chunk: "length (chunk xs n) = (length xs + n - 1) div n"
  by (simp add: chunk_def)

lemma chunk_nth_full:
  assumes "0 < n" and "Suc i < (length xs + n - 1) div n"
  shows "length (chunk xs n ! i) = n"
proof -
  have "Suc i * n \<le> ((length xs + n - 1) div n - 1) * n"
    using assms(2) by (intro mult_le_mono1) simp
  also have "\<dots> = ((length xs + n - 1) div n) * n - n"
    by (simp add: diff_mult_distrib)
  also have "\<dots> \<le> (length xs + n - 1) - n"
    by (intro diff_le_mono) simp
  finally have "Suc i * n \<le> length xs" using assms(1) by simp
  then have "n \<le> length xs - i * n" by simp
  moreover have "i < (length xs + n - 1) div n" using assms(2) by simp
  ultimately show ?thesis by (simp add: chunk_def)
qed

lemma chunk_last_len:
  assumes "0 < n" and "xs \<noteq> []"
  shows "1 \<le> length (last (chunk xs n)) \<and> length (last (chunk xs n)) \<le> n"
proof -
  let ?k = "(length xs + n - 1) div n"
  have "1 \<le> length xs" using assms(2) by (cases xs) simp_all
  then have "n \<le> length xs + n - 1" by linarith
  then have kpos: "0 < ?k" using assms(1) by (simp add: div_greater_zero_iff)
  have ne: "chunk xs n \<noteq> []" using kpos by (simp add: chunk_def)
  have last_eq: "last (chunk xs n) = take n (drop ((?k - 1) * n) xs)"
    using kpos ne by (simp add: last_conv_nth) (simp add: chunk_def)
  have "(?k - 1) * n = ?k * n - n" by (simp add: diff_mult_distrib)
  also have "\<dots> \<le> (length xs + n - 1) - n" by (intro diff_le_mono) simp
  also have "\<dots> < length xs" using assms by (cases xs) auto
  finally have "(?k - 1) * n < length xs" .
  then show ?thesis using assms(1) by (simp add: last_eq)
qed

subsection \<open>C6: the chunks of a sequence\<close>

text \<open>
  C6. For a sequence of at most 10 items \<open>_chunkData\<close> returns exactly one chunk, equal to the
  input. For a sequence of length \<open>L > 10\<close> it returns \<open>ceil(L / 10)\<close> chunks, every chunk
  but the last of size exactly 10, the last of size 1 to 10, and their concatenation is the
  input in order.
\<close>

theorem chunkData_chunks:
  "(length xs \<le> 10 \<longrightarrow> chunkData (Arr xs) = [xs]) \<and>
   (10 < length xs \<longrightarrow>
      length (chunkData (Arr xs)) = (length xs + 9) div 10 \<and>
      (\<forall>c \<in> set (butlast (chunkData (Arr xs))). length c = 10) \<and>
      1 \<le> length (last (chunkData (Arr xs))) \<and>
      length (last (chunkData (Arr xs))) \<le> 10 \<and>
      concat (chunkData (Arr xs)) = xs)"
proof (intro conjI impI)
  assume "length xs \<le> 10"
  then show "chunkData (Arr xs) = [xs]" by (simp add: chunkData_def)
next
  assume L: "10 < length xs"
  then have cd: "chunkData (Arr xs) = chunk xs 10" by (simp add: chunkData_def)
  show "length (chunkData (Arr xs)) = (length xs + 9) div 10"
    by (simp add: cd length_chunk)
  show "\<forall>c \<in> set (butlast (chunkData (Arr xs))). length c = 10"
  proof
    fix c assume "c \<in> set (butlast (chunkData (Arr xs)))"
    then obtain i where i: "i < length (butlast (chunk xs 10))"
      and c: "c = butlast (chunk xs 10) ! i"
      unfolding cd by (auto simp: in_set_conv_nth)
    from i have i': "Suc i < (length xs + 10 - 1) div 10" by (simp add: length_chunk)
    from i have "c = chunk xs 10 ! i" using c by (simp add: nth_butlast)
    then show "length c = 10" using chunk_nth_full [OF _ i'] by simp
  qed
  from L have ne: "xs \<noteq> []" by auto
  show "1 \<le> length (last (chunkData (Arr xs)))" "length (last (chunkData (Arr xs))) \<le> 10"
    using chunk_last_len [OF _ ne, of 10] by (simp_all add: cd)
  show "concat (chunkData (Arr xs)) = xs" by (simp add: cd concat_chunk)
qed

theorem chunkData_chunks_witness:
  "length [1::nat, 2, 3] \<le> 10 \<and> chunkData (Arr [1::nat, 2, 3]) = [ [1, 2, 3] ] \<and>
   10 < length [0 ..< 25] \<and>
   length (chunkData (Arr [0 ..< 25])) = 3 \<and>
   length (last (chunkData (Arr [0 ..< 25]))) \<le> 10 \<and>
   concat (chunkData (Arr [0 ..< 25])) = [0 ..< 25]"
  using chunkData_chunks [of "[1::nat, 2, 3]"] chunkData_chunks [of "[0 ..< 25]"]
  by simp

subsection \<open>C1: the shape of a batch result\<close>

lemmas service_defs =
  create_def delete_def handleBatch_def writeChunk_def throttle_def sdkList_def
  destructure_def shape_def deleted_def typecastParams_def chunkData_def collapse_def
  flatten_def demoEnv_def demoListOp_def Let_def

lemma demo_instance: "spreadObj (JRef 0) demoWorld = demoConfig"
  by (simp add: spreadObj_def demoWorld_def)

lemma mergeConfig_demo_absent:
  "mergeConfig (JRef 0) JUndefined demoWorld = (Inr (JRef 0), demoWorld)"
  by (simp add: mergeConfig_def)

text \<open>
  \<open>_handleBatch\<close> does not tell a single item from a list of one item: both are the one
  chunk \<open>[x]\<close>, and the result is collapsed by its length alone.
\<close>

lemma handleBatch_scalar_as_list:
  "handleBatch (Scalar x) config iterator w = handleBatch (Arr [x]) config iterator w"
  by (simp add: handleBatch_def chunkData_def)

lemma collapse_cases:
  "collapse [] = NoResult" "collapse [r] = Single r"
  "1 < length rs \<Longrightarrow> collapse rs = Many rs"
  by (simp_all add: collapse_def)

text \<open>
  C1. The claim has a list-shaped request always return a sequence, so that
  \<open>create([singleRecord])\<close> is a one-element sequence. The code returns the bare record for
  the list of one record, the same value it returns for \<open>create(singleRecord)\<close>; and
  \<open>update([{ id, fields }], cfg)\<close>, the call that \<open>upsert\<close> and \<open>updateWhere\<close> make for a
  single matching row, returns the bare updated record as well.
\<close>

theorem create_singleton_list_collapses:
  "fst (create demoEnv (JRef 0) (Arr [Some demoData]) JUndefined demoWorld)
     = Inr (Single (Plain demoCreated))
   \<and> fst (create demoEnv (JRef 0) (Scalar (Some demoData)) JUndefined demoWorld)
     = Inr (Single (Plain demoCreated))
   \<and> fst (update demoEnv (JRef 0) (Batch [(JStr ''rec1'', Some demoData)] (JRef 0)) demoWorld)
     = Inr (Single (Plain demoCreated))"
  by (simp add: service_defs update_def demo_defs demoCreated_def)

subsection \<open>C3: the empty sequence\<close>

text \<open>
  On the empty sequence \<open>_chunkData\<close> returns the one empty chunk (by its branch for at most
  10 items), and \<open>_handleBatch\<close> runs its worker once, on the empty chunk. Only \<open>create\<close>
  rejects the empty sequence before batching.
\<close>

lemma handleBatch_empty:
  assumes "config \<noteq> JUndefined" and "config \<noteq> JNull"
  shows "chunkData (Arr ([] :: 'a list)) = [ [] ]
     \<and> handleBatch (Arr ([] :: 'a list)) config iterator w =
         (case iterator [] w of
            (Inl e, w1) \<Rightarrow> (Inl e, w1)
          | (Inr res, w1) \<Rightarrow> (Inr (collapse res), w1))
     \<and> create E thisConfig (Arr []) config' w = (Inl DataEmpty, w)"
  using assms
  by (simp add: chunkData_def handleBatch_def create_def flatten_def
           split: prod.splits sum.splits)

text \<open>
  So, on every store and for every instance with a handle, \<open>delete([])\<close> sends one \<open>destroy\<close>
  call with no ids, and \<open>update([], cfg)\<close> with the instance configuration as \<open>cfg\<close> sends
  one \<open>update\<close> call with no items.
\<close>

lemma delete_empty_call:
  assumes "getProp (heap w t) ''base'' = JBase n k i"
  shows "sent (snd (delete E (JRef t) (Arr []) JUndefined w))
           = sent w @ [(JBase n k i, Destroy (getProp (heap w t) ''tableName'') [])]"
  using assms
  by (simp add: delete_def mergeConfig_def destructure_def spreadObj_def handleBatch_def
        chunkData_def throttle_def sdkList_def split: prod.splits sum.splits)

text \<open>
  C3. The claim has an empty-sequence batch operation do no work and send no call to the
  store. In the code \<open>_chunkData([])\<close> is the one empty chunk, \<open>delete([])\<close> sends one \<open>destroy\<close>
  call with no ids and resolves to \<open>undefined\<close>, and \<open>update([], cfg)\<close> sends one \<open>update\<close>
  call with no items; only \<open>create([])\<close> is rejected before anything is sent.
\<close>

theorem empty_batch_sends_call:
  "chunkData (Arr ([] :: jsval list)) = [ [] ]
   \<and> sent (snd (delete demoEnv (JRef 0) (Arr []) JUndefined demoWorld))
       = [(JBase 0 (JStr ''key'') (JStr ''app1''), Destroy (JStr ''Table 1'') [])]
   \<and> fst (delete demoEnv (JRef 0) (Arr []) JUndefined demoWorld) = Inr NoResult
   \<and> sent (snd (update demoEnv (JRef 0) (Batch [] (JRef 0)) demoWorld))
       = [(JBase 0 (JStr ''key'') (JStr ''app1''), Update (JStr ''Table 1'') [] None)]
   \<and> create demoEnv (JRef 0) (Arr []) JUndefined demoWorld = (Inl DataEmpty, demoWorld)"
  by (simp add: service_defs update_def demo_defs)

text \<open>
  The batch branch of \<open>update\<close> and \<open>replace\<close> hands the caller's \<open>config\<close>, not the merged
  \<open>cfg\<close>, to \<open>_handleBatch\<close>: without a config argument the destructuring throws.
\<close>

lemma update_batch_without_config:
  "fst (update E (JRef t) (Batch data JUndefined) w) = Inl TypeError"
  "fst (replace E (JRef t) (Batch data JUndefined) w) = Inl TypeError"
  by (simp_all add: update_def replace_def mergeConfig_def destructure_def handleBatch_def)


section \<open>Properties of \<open>read\<close>\<close>

lemma destructure_ref [simp]: "destructure (JRef c) w = Inr (heap w c)"
  by (simp add: destructure_def spreadObj_def)

subsection \<open>C5: the caller's transform in \<open>read\<close>\<close>

text \<open>
  C5. When the effective \<open>transform\<close> is a caller's function \<open>f\<close>, \<open>read\<close> first shapes the
  records the store returned by \<open>complex\<close> and, when \<open>camelCase\<close> is set, passes them through
  \<open>camelcaseKeys\<close>; it then applies \<open>f\<close> to a copy of each of these records. If \<open>f\<close> returns a
  falsy value for every record, these (untransformed) records are returned; if it returns a
  truthy value for at least one record, the truthy results, in order, replace the records and
  the falsy ones are dropped.
\<close>

theorem read_transform:
  assumes "mergeConfig thisConfig config w = (Inr (JRef c), w1)"
    and "getProp (heap w1 c) ''transform'' = JFun f"
    and "sdkList E (getProp (heap w1 c) ''base'') (selectOf params (heap w1 c)) w1
           = (Inr els, w2)"
    and "records =
           (if truthy (getProp (heap w1 c) ''camelCase'')
            then camelcaseKeys E (map (shape (getProp (heap w1 c) ''complex'')) els)
            else map (shape (getProp (heap w1 c) ''complex'')) els)"
  shows "((\<forall>el \<in> set records. \<not> truthyRow (callFn E f (spreadRow el))) \<longrightarrow>
          read E thisConfig params config w = (Inr (filter truthyRow records), w2))
     \<and> ((\<exists>el \<in> set records. truthyRow (callFn E f (spreadRow el))) \<longrightarrow>
          read E thisConfig params config w =
            (Inr (filter truthyRow (map (\<lambda>el. callFn E f (spreadRow el)) records)), w2))"
proof -
  define tr where "tr = map (\<lambda>el. callFn E f (spreadRow el)) records"
  have ct: "callTransform E f records = tr"
    by (simp add: callTransform_def tr_def)
  have k: "keyCased E (getProp (heap w1 c) ''complex'') (getProp (heap w1 c) ''camelCase'') els
             = records"
    using assms(4) by (simp add: keyCased_def)
  have rd: "read E thisConfig params config w =
              (Inr (filter truthyRow
                      (if length (filter truthyRow tr) > 0 then filter truthyRow tr
                       else records)), w2)"
    using assms(1,2,3)
    by (simp add: read_def throttle_def applyTransform_def ct k Let_def)
  have e: "(length (filter truthyRow tr) > 0)
             = (\<exists>el \<in> set records. truthyRow (callFn E f (spreadRow el)))"
    by (auto simp: tr_def filter_empty_conv)
  have none: "read E thisConfig params config w = (Inr (filter truthyRow records), w2)"
    if "\<forall>el \<in> set records. \<not> truthyRow (callFn E f (spreadRow el))"
    using that e by (simp add: rd)
  have some: "read E thisConfig params config w = (Inr (filter truthyRow tr), w2)"
    if "\<exists>el \<in> set records. truthyRow (callFn E f (spreadRow el))"
    using that e by (simp add: rd)
  show ?thesis
    using none some unfolding tr_def by blast
qed

theorem read_transform_witness:
  "read demoEnv (JRef 0) NoParams JUndefined stockedWorld
     = (Inr [Plain demoRec1, Plain demoRec2],
        snd (read demoEnv (JRef 0) NoParams JUndefined stockedWorld))
   \<and> read demoEnv (JRef 0) NoParams (JRef 4) stockedWorld
     = (Inr [Plain demoRec1], snd (read demoEnv (JRef 0) NoParams (JRef 4) stockedWorld))
   \<and> read demoEnv (JRef 0) NoParams (JRef 4) camelWorld
     = (Inr [Plain demoRec1Camel], snd (read demoEnv (JRef 0) NoParams (JRef 4) camelWorld))"
proof -
  define wa where "wa = snd (sdkList demoEnv (JBase 0 (JStr ''key'') (JStr ''app1''))
                               (Select (JStr ''Table 1'') []) stockedWorld)"
  define w1 where "w1 = snd (mergeConfig (JRef 0) (JRef 4) stockedWorld)"
  define wb where "wb = snd (sdkList demoEnv (JBase 0 (JStr ''key'') (JStr ''app1''))
                               (Select (JStr ''Table 1'') []) w1)"
  define v1 where "v1 = snd (mergeConfig (JRef 0) (JRef 4) camelWorld)"
  define wc where "wc = snd (sdkList demoEnv (JBase 0 (JStr ''key'') (JStr ''app1''))
                               (Select (JStr ''Table 1'') []) v1)"
  have m0: "mergeConfig (JRef 0) JUndefined stockedWorld = (Inr (JRef 0), stockedWorld)"
    by (simp add: mergeConfig_def)
  have h0: "heap stockedWorld 0 = demoConfig"
    by (simp add: stockedWorld_def demoWorld_def)
  have t0: "getProp (heap stockedWorld 0) ''transform'' = JFun 0"
    by (simp add: h0 demoConfig_def getProp_def)
  have s0: "sdkList demoEnv (getProp (heap stockedWorld 0) ''base'')
              (selectOf NoParams (heap stockedWorld 0)) stockedWorld
            = (Inr [demoRec1, demoRec2], wa)"
    unfolding wa_def
    by (simp add: h0 demoConfig_def getProp_def selectOf_def sdkList_def demoEnv_def
          demoListOp_def stockedWorld_def demoWorld_def)
  have k0: "[Plain demoRec1, Plain demoRec2] =
              (if truthy (getProp (heap stockedWorld 0) ''camelCase'')
               then camelcaseKeys demoEnv
                      (map (shape (getProp (heap stockedWorld 0) ''complex''))
                         [demoRec1, demoRec2])
               else map (shape (getProp (heap stockedWorld 0) ''complex''))
                      [demoRec1, demoRec2])"
    by (simp add: h0 demoConfig_def getProp_def shape_def)
  have c0: "callFn demoEnv 0 el = Value JUndefined" for el
    by (simp add: demoEnv_def demoCall_def)
  have r0: "read demoEnv (JRef 0) NoParams JUndefined stockedWorld
              = (Inr [Plain demoRec1, Plain demoRec2], wa)"
    using read_transform [OF m0 t0 s0 k0] by (simp add: c0)
  have m1: "mergeConfig (JRef 0) (JRef 4) stockedWorld = (Inr (JRef 5), w1)"
    unfolding w1_def by (simp add: demo_defs stockedWorld_def)
  have h1: "heap w1 5 = demoConfig(''transform'' \<mapsto> JFun 2)"
    unfolding w1_def by (simp add: demo_defs stockedWorld_def map_add_def fun_eq_iff)
  have rem1: "remote w1 = [demoRec1, demoRec2]"
    unfolding w1_def by (simp add: demo_defs stockedWorld_def)
  have t1: "getProp (heap w1 5) ''transform'' = JFun 2"
    by (simp add: h1 getProp_def)
  have s1: "sdkList demoEnv (getProp (heap w1 5) ''base'') (selectOf NoParams (heap w1 5)) w1
            = (Inr [demoRec1, demoRec2], wb)"
    unfolding wb_def
    by (simp add: h1 rem1 demoConfig_def getProp_def selectOf_def sdkList_def demoEnv_def
          demoListOp_def)
  have k1: "[Plain demoRec1, Plain demoRec2] =
              (if truthy (getProp (heap w1 5) ''camelCase'')
               then camelcaseKeys demoEnv
                      (map (shape (getProp (heap w1 5) ''complex'')) [demoRec1, demoRec2])
               else map (shape (getProp (heap w1 5) ''complex'')) [demoRec1, demoRec2])"
    by (simp add: h1 demoConfig_def getProp_def shape_def)
  have c1: "callFn demoEnv 2 (Plain demoRec1) = Plain demoRec1"
    "callFn demoEnv 2 (Plain demoRec2) = Value JUndefined"
    by (simp_all add: demoEnv_def demoCall_def demoRec1_def demoRec2_def)
  have r1: "read demoEnv (JRef 0) NoParams (JRef 4) stockedWorld = (Inr [Plain demoRec1], wb)"
    using read_transform [OF m1 t1 s1 k1] by (simp add: c1)
  have m2: "mergeConfig (JRef 0) (JRef 4) camelWorld = (Inr (JRef 5), v1)"
    unfolding v1_def by (simp add: demo_defs stockedWorld_def camelWorld_def)
  have h2: "heap v1 5 = demoConfig(''camelCase'' \<mapsto> JBool True, ''transform'' \<mapsto> JFun 3)"
    unfolding v1_def
    by (simp add: demo_defs stockedWorld_def camelWorld_def map_add_def fun_eq_iff)
  have rem2: "remote v1 = [demoRec1, demoRec2]"
    unfolding v1_def by (simp add: demo_defs stockedWorld_def camelWorld_def)
  have t2: "getProp (heap v1 5) ''transform'' = JFun 3"
    by (simp add: h2 getProp_def)
  have s2: "sdkList demoEnv (getProp (heap v1 5) ''base'') (selectOf NoParams (heap v1 5)) v1
            = (Inr [demoRec1, demoRec2], wc)"
    unfolding wc_def
    by (simp add: h2 rem2 demoConfig_def getProp_def selectOf_def sdkList_def demoEnv_def
          demoListOp_def)
  have k2: "[Plain demoRec1Camel,
             Plain \<lparr>rid = ''rec2'', rfields = [(''id'', FStr ''2''), (''firstName'', FStr ''bar'')],
                    createdTime = Some ''t2''\<rparr>] =
              (if truthy (getProp (heap v1 5) ''camelCase'')
               then camelcaseKeys demoEnv
                      (map (shape (getProp (heap v1 5) ''complex'')) [demoRec1, demoRec2])
               else map (shape (getProp (heap v1 5) ''complex'')) [demoRec1, demoRec2])"
    by (simp add: h2 demoConfig_def getProp_def shape_def demoEnv_def demoCamel_def
          demoCamelKey_def demoRec1_def demoRec2_def demoRec1Camel_def)
  have c2: "callFn demoEnv 3 (Plain demoRec1Camel) = Plain demoRec1Camel"
    "callFn demoEnv 3 (Plain \<lparr>rid = ''rec2'',
         rfields = [(''id'', FStr ''2''), (''firstName'', FStr ''bar'')],
         createdTime = Some ''t2''\<rparr>) = Value JUndefined"
    by (simp_all add: demoEnv_def demoCall_def demoRec1Camel_def)
  have r2: "read demoEnv (JRef 0) NoParams (JRef 4) camelWorld = (Inr [Plain demoRec1Camel], wc)"
    using read_transform [OF m2 t2 s2 k2] by (simp add: c2)
  have "snd (read demoEnv (JRef 0) NoParams JUndefined stockedWorld) = wa"
    "snd (read demoEnv (JRef 0) NoParams (JRef 4) stockedWorld) = wb"
    "snd (read demoEnv (JRef 0) NoParams (JRef 4) camelWorld) = wc"
    by (simp_all add: r0 r1 r2)
  with r0 r1 r2 show ?thesis by simp
qed

text \<open>
  Without \<open>camelCase\<close>, a successful \<open>read\<close> yields no row exactly when the store returned no
  record: a transform cannot empty the result.
\<close>

lemma truthyRow_shape [simp]: "truthyRow (shape complex r)"
  by (simp add: shape_def)

lemma read_rows_empty:
  assumes "mergeConfig thisConfig config w = (Inr (JRef c), w1)"
    and "\<not> truthy (getProp (heap w1 c) ''camelCase'')"
    and "sdkList E (getProp (heap w1 c) ''base'') (selectOf params (heap w1 c)) w1
           = (Inr els, w2)"
    and "read E thisConfig params config w = (Inr rows, w')"
  shows "(rows = []) = (els = [])"
proof -
  let ?records = "map (shape (getProp (heap w1 c) ''complex'')) els"
  have all: "filter truthyRow ?records = ?records"
    by (simp add: filter_id_conv)
  have k: "keyCased E (getProp (heap w1 c) ''complex'') (getProp (heap w1 c) ''camelCase'') els
             = ?records"
    using assms(2) by (simp add: keyCased_def)
  from assms(1,3,4) obtain records where
    a: "applyTransform E (getProp (heap w1 c) ''transform'') ?records = Inr records"
    and r: "rows = filter truthyRow records"
    by (auto simp: read_def throttle_def k split: sum.splits)
  show ?thesis
  proof (cases "els = []")
    case True
    with a r show ?thesis
      by (auto simp: applyTransform_def callTransform_def Let_def split: if_splits jsval.splits)
  next
    case False
    from a have "records = ?records
                 \<or> (records \<noteq> [] \<and> filter truthyRow records = records)"
      by (auto simp: applyTransform_def Let_def split: if_splits jsval.splits)
    with False r all show ?thesis by auto
  qed
qed

section \<open>Properties of \<open>upsert\<close>\<close>

subsection \<open>Merging a merged configuration again\<close>

text \<open>
  \<open>upsert\<close> merges once and hands the result \<open>cfg\<close> to \<open>read\<close>, \<open>create\<close> and \<open>update\<close>,
  each of which merges \<open>cfg\<close> again. The second merge returns a new object with the same
  options, a handle for the same container, and leaves the existing objects alone.
\<close>

lemma sameObjects_refl: "sameObjects w w"
  by (simp add: sameObjects_def)

lemma sameObjects_trans: "sameObjects w w' \<Longrightarrow> sameObjects w' w'' \<Longrightarrow> sameObjects w w''"
  by (auto simp: sameObjects_def)

lemma effective_mono: "effective w t c \<Longrightarrow> sameObjects w w' \<Longrightarrow> effective w' t c"
  by (auto simp: effective_def sameObjects_def)

lemma dropBadTransform_settled:
  assumes "transformSettled (heap w c)"
  shows "dropBadTransform (JRef c) w = w"
proof (cases "typeof (getProp (heap w c) ''transform'') = TFunction")
  case True
  then show ?thesis by (simp add: dropBadTransform_def)
next
  case False
  with assms have "heap w c ''transform'' = Some JUndefined"
    by (auto simp: transformSettled_def getProp_def split: option.splits)
  then have "(heap w c)(''transform'' \<mapsto> JUndefined) = heap w c"
    by (simp add: map_upd_triv)
  with False show ?thesis by (simp add: dropBadTransform_def)
qed

lemma getProp_map_add:
  assumes "dom m1 \<subseteq> dom m2"
  shows "getProp (m1 ++ m2) k = getProp m2 k"
proof (cases "m2 k")
  case None
  with assms have "m1 k = None" by (auto simp: dom_def)
  with None show ?thesis by (simp add: getProp_def map_add_def)
next
  case (Some v)
  then show ?thesis by (simp add: getProp_def map_add_def)
qed

lemma remerge:
  assumes "effective w t c"
  shows "\<exists>w'. mergeConfig (JRef t) (JRef c) w = (Inr (JRef (nextA w)), w')
           \<and> sameObjects w w' \<and> nextA w' = Suc (nextA w)
           \<and> remote w' = remote w \<and> sent w' = sent w
           \<and> (\<forall>k. k \<noteq> ''base'' \<longrightarrow> getProp (heap w' (nextA w)) k = getProp (heap w c) k)
           \<and> (\<exists>n key. getProp (heap w' (nextA w)) ''base''
                          = JBase n key (getProp (heap w c) ''baseID''))"
proof -
  from assms have s: "transformSettled (heap w c)"
    and g: "getId (getProp (heap w c) ''base'') = Some (getProp (heap w c) ''baseID'')"
    and d: "dom (heap w t) \<subseteq> dom (heap w c)"
    by (simp_all add: effective_def)
  have drop: "dropBadTransform (JRef c) w = w"
    by (rule dropBadTransform_settled [OF s])
  have pre: "spreadMerge (JRef t) (JRef c) w = heap w t ++ heap w c"
    by (simp add: spreadMerge_def drop spreadObj_def overrideOf_def)
  have p: "getProp (heap w t ++ heap w c) k = getProp (heap w c) k" for k
    by (rule getProp_map_add [OF d])
  from g obtain n key where b: "getProp (heap w c) ''base'' = JBase n key (getProp (heap w c) ''baseID'')"
    by (auto simp: getId_def split: jsval.splits)
  show ?thesis
  proof (cases "mustMint (heap w t ++ heap w c) w")
    case True
    then show ?thesis
      by (simp add: mergeConfig_result pre drop Let_def sameObjects_def p)
  next
    case False
    then show ?thesis
      using b g by (simp add: mergeConfig_result pre drop Let_def sameObjects_def p)
  qed
qed

lemma merge_effective:
  assumes "t < nextA w" and "transformSettled (heap w t)"
    and "getId (getProp (heap w t) ''base'') = Some (getProp (heap w t) ''baseID'')"
    and "mergeConfig (JRef t) config w = (Inr cfg, w1)"
  shows "\<exists>c. cfg = JRef c \<and> effective w1 t c \<and> remote w1 = remote w \<and> sent w1 = sent w"
proof (cases "truthy config")
  case False
  with assms show ?thesis by (auto simp: mergeConfig_absent effective_def)
next
  case True
  let ?w0 = "dropBadTransform config w"
  let ?pre = "spreadMerge (JRef t) config w"
  have ht: "heap ?w0 t = heap w t"
  proof (cases "config = JRef t")
    case True
    then show ?thesis by (simp add: dropBadTransform_settled [OF assms(2)])
  next
    case False
    then show ?thesis by (rule heap_dropBadTransform_other)
  qed
  have pre: "?pre = heap w t ++ overrideOf config ?w0"
    by (simp add: spreadMerge_def spreadObj_def ht)
  have dom: "dom (heap w t) \<subseteq> dom ?pre"
    by (simp add: pre)
  have set: "transformSettled ?pre"
  proof (cases "\<exists>a. config = JRef a")
    case True
    then obtain a where "config = JRef a" ..
    then show ?thesis
      by (auto simp: transformSettled_def spreadMerge_transform getProp_def split: option.splits)
  next
    case False
    then have "overrideOf config ?w0 ''transform'' = None"
      by (cases config) (auto simp: overrideOf_def)
    then have "?pre ''transform'' = heap w t ''transform''"
      by (simp add: pre map_add_def)
    with assms(2) show ?thesis by (simp add: transformSettled_def)
  qed
  have set': "transformSettled (?pre(''base'' \<mapsto> h))" for h
    using set by (simp add: transformSettled_def)
  have dom': "dom (heap w t) \<subseteq> dom (?pre(''base'' \<mapsto> h))" for h
    using dom by auto
  show ?thesis
  proof (cases "mustMint ?pre w")
    case m: True
    let ?h = "JBase (minted w) (getProp ?pre ''apiKey'') (getProp ?pre ''baseID'')"
    from True m assms(4) have c: "cfg = JRef (nextA w)"
      and w1: "w1 = ?w0\<lparr>apiKeyG := getProp ?pre ''apiKey'', minted := Suc (minted w),
                  heap := (heap ?w0)(nextA w := ?pre(''base'' \<mapsto> ?h)),
                  nextA := Suc (nextA w)\<rparr>"
      by (simp_all add: mergeConfig_result Let_def)
    have "effective w1 t (nextA w)"
      unfolding effective_def w1 using assms(1) set' [of ?h] dom' [of ?h]
      by (simp add: ht getId_def)
    with c show ?thesis by (simp add: w1)
  next
    case m: False
    from m True assms(4) have n: "getId (getProp ?pre ''base'') \<noteq> None"
      by (auto simp: mergeConfig_result Let_def split: if_splits)
    with m have g: "getId (getProp ?pre ''base'') = Some (getProp ?pre ''baseID'')"
      by (auto simp: mustMint_def split: option.splits)
    from True m assms(4) have c: "cfg = JRef (nextA w)"
      and w1: "w1 = ?w0\<lparr>heap := (heap ?w0)(nextA w := ?pre), nextA := Suc (nextA w)\<rparr>"
      by (simp_all add: mergeConfig_result Let_def g)
    have "effective w1 t (nextA w)"
      unfolding effective_def w1 using assms(1) set dom g
      by (simp add: ht)
    with c show ?thesis by (simp add: w1)
  qed
qed

subsection \<open>What \<open>read\<close>, \<open>create\<close> and \<open>update\<close> send\<close>

lemma sdkList_handle:
  "sdkList E (JBase n k i) rq w =
     (case listOp E (JBase n k i) rq (remote w) of
        (res, s') \<Rightarrow> (res, w\<lparr>remote := s', sent := sent w @ [(JBase n k i, rq)]\<rparr>))"
  by (simp add: sdkList_def split: prod.splits)

lemma sdkList_same:
  "heap (snd (sdkList E b rq w)) = heap w \<and> nextA (snd (sdkList E b rq w)) = nextA w"
  by (cases b) (simp_all add: sdkList_def split: prod.splits)

lemma read_world:
  assumes "mergeConfig thisConfig config w = (Inr (JRef c2), wm)"
  shows "snd (read E thisConfig params config w)
           = snd (sdkList E (getProp (heap wm c2) ''base'') (selectOf params (heap wm c2)) wm)"
  using assms by (simp add: read_def throttle_def split: prod.splits sum.splits)

lemma read_frame:
  assumes "effective w t c" and "read E (JRef t) params (JRef c) w = (res, w')"
  shows "sameObjects w w'"
proof -
  from remerge [OF assms(1)] obtain wm
    where m: "mergeConfig (JRef t) (JRef c) w = (Inr (JRef (nextA w)), wm)"
      and so: "sameObjects w wm"
    by blast
  from read_world [OF m, of E params] assms(2)
  have "w' = snd (sdkList E (getProp (heap wm (nextA w)) ''base'')
                    (selectOf (params) (heap wm (nextA w))) wm)"
    by simp
  then have "heap w' = heap wm" and "nextA w' = nextA wm"
    using sdkList_same by metis+
  with so show ?thesis by (simp add: sameObjects_def)
qed

text \<open>The call that a successful \<open>read\<close> has sent.\<close>

lemma read_sent:
  assumes "effective w t c" and "read E (JRef t) (Query q) (JRef c) w = (Inr rows, w')"
  shows "map snd (sent w') = map snd (sent w) @ [Select (getProp (heap w c) ''tableName'') q]"
proof -
  from remerge [OF assms(1)] obtain wm n key
    where m: "mergeConfig (JRef t) (JRef c) w = (Inr (JRef (nextA w)), wm)"
      and s: "sent wm = sent w"
      and p: "\<forall>k. k \<noteq> ''base'' \<longrightarrow> getProp (heap wm (nextA w)) k = getProp (heap w c) k"
      and b: "getProp (heap wm (nextA w)) ''base'' = JBase n key (getProp (heap w c) ''baseID'')"
    by blast
  from p have tb: "getProp (heap wm (nextA w)) ''tableName'' = getProp (heap w c) ''tableName''"
    by simp
  from read_world [OF m, of E "Query q"] assms(2)
  have "w' = snd (sdkList E (getProp (heap wm (nextA w)) ''base'')
                    (selectOf (Query q) (heap wm (nextA w))) wm)"
    by simp
  then show ?thesis
    by (simp add: b sdkList_handle selectOf_def tb s split: prod.splits)
qed

lemma pMap_writeChunk:
  assumes "\<forall>items s. \<exists>rs s'. listOp E (JBase n k i) (mk items) s = (Inr rs, s')"
  shows "\<exists>res w'. pMap chunks (\<lambda>items. writeChunk E (JBase n k i) cx (mk items)) conc w
                    = (Inr res, w')
           \<and> sent w' = sent w @ map (\<lambda>ch. (JBase n k i, mk ch)) chunks"
proof (induction chunks arbitrary: w)
  case Nil
  show ?case by simp
next
  case (Cons ch chunks)
  from assms obtain rs s' where l: "listOp E (JBase n k i) (mk ch) (remote w) = (Inr rs, s')"
    by blast
  let ?w1 = "w\<lparr>remote := s', sent := sent w @ [(JBase n k i, mk ch)]\<rparr>"
  have wc: "writeChunk E (JBase n k i) cx (mk ch) w = (Inr (map (shape cx) rs), ?w1)"
    by (simp add: writeChunk_def throttle_def sdkList_handle l)
  from Cons.IH [of ?w1] obtain res w' where
    r: "pMap chunks (\<lambda>items. writeChunk E (JBase n k i) cx (mk items)) conc ?w1 = (Inr res, w')"
    and s: "sent w' = sent ?w1 @ map (\<lambda>ch. (JBase n k i, mk ch)) chunks"
    by blast
  show ?case
    by (simp add: wc r s)
qed

lemma create_one:
  assumes "effective w t c"
    and "\<forall>b. listOp E b (Create (getProp (heap w c) ''tableName'') [Some d]
                 (typecastParams (getProp (heap w c) ''typecast''))) (remote w) = (Inr [r], s3)"
  shows "fst (create E (JRef t) (Scalar (Some d)) (JRef c) w)
           = Inr (Single (shape (getProp (heap w c) ''complex'') r))
     \<and> map snd (sent (snd (create E (JRef t) (Scalar (Some d)) (JRef c) w)))
           = map snd (sent w) @ [Create (getProp (heap w c) ''tableName'') [Some d]
                                   (typecastParams (getProp (heap w c) ''typecast''))]
     \<and> remote (snd (create E (JRef t) (Scalar (Some d)) (JRef c) w)) = s3"
proof -
  from remerge [OF assms(1)] obtain wm n key
    where m: "mergeConfig (JRef t) (JRef c) w = (Inr (JRef (nextA w)), wm)"
      and s: "sent wm = sent w" and rm: "remote wm = remote w"
      and p: "\<forall>k. k \<noteq> ''base'' \<longrightarrow> getProp (heap wm (nextA w)) k = getProp (heap w c) k"
      and b: "getProp (heap wm (nextA w)) ''base'' = JBase n key (getProp (heap w c) ''baseID'')"
    by blast
  from p have o: "getProp (heap wm (nextA w)) ''tableName'' = getProp (heap w c) ''tableName''"
    "getProp (heap wm (nextA w)) ''typecast'' = getProp (heap w c) ''typecast''"
    "getProp (heap wm (nextA w)) ''complex'' = getProp (heap w c) ''complex''"
    by simp_all
  show ?thesis
    using assms(2)
    by (simp add: create_def m o b handleBatch_def chunkData_def writeChunk_def throttle_def
          sdkList_handle rm s collapse_def flatten_def)
qed

lemma update_many:
  assumes "effective w t c"
    and "\<forall>b items s. \<exists>rs s'. listOp E b (Update (getProp (heap w c) ''tableName'') items
                 (typecastParams (getProp (heap w c) ''typecast''))) s = (Inr rs, s')"
  shows "\<not> isl (fst (update E (JRef t) (Batch data (JRef c)) w))
     \<and> map snd (sent (snd (update E (JRef t) (Batch data (JRef c)) w)))
           = map snd (sent w)
             @ map (\<lambda>ch. Update (getProp (heap w c) ''tableName'') ch
                           (typecastParams (getProp (heap w c) ''typecast'')))
                   (chunkData (Arr data))"
proof -
  from remerge [OF assms(1)] obtain wm n key
    where m: "mergeConfig (JRef t) (JRef c) w = (Inr (JRef (nextA w)), wm)"
      and s: "sent wm = sent w"
      and p: "\<forall>k. k \<noteq> ''base'' \<longrightarrow> getProp (heap wm (nextA w)) k = getProp (heap w c) k"
      and b: "getProp (heap wm (nextA w)) ''base'' = JBase n key (getProp (heap w c) ''baseID'')"
    by blast
  from p have o: "getProp (heap wm (nextA w)) ''tableName'' = getProp (heap w c) ''tableName''"
    "getProp (heap wm (nextA w)) ''typecast'' = getProp (heap w c) ''typecast''"
    "getProp (heap wm (nextA w)) ''complex'' = getProp (heap w c) ''complex''"
    by simp_all
  let ?b = "JBase n key (getProp (heap w c) ''baseID'')"
  let ?mk = "\<lambda>items. Update (getProp (heap w c) ''tableName'') items
                        (typecastParams (getProp (heap w c) ''typecast''))"
  from assms(2) have "\<forall>items s. \<exists>rs s'. listOp E ?b (?mk items) s = (Inr rs, s')"
    by blast
  from pMap_writeChunk [OF this, of "chunkData (Arr data)" "getProp (heap w c) ''complex''"
         "getProp (spreadObj (JRef c) wm) ''concurrency''" wm]
  obtain res w' where
    r: "pMap (chunkData (Arr data)) (\<lambda>items. writeChunk E ?b (getProp (heap w c) ''complex'')
           (?mk items)) (getProp (spreadObj (JRef c) wm) ''concurrency'') wm = (Inr res, w')"
    and sw: "sent w' = sent wm @ map (\<lambda>ch. (?b, ?mk ch)) (chunkData (Arr data))"
    by blast
  show ?thesis
    by (simp add: update_def m o b handleBatch_def r sw s comp_def)
qed

lemma upsertFormula_shape:
  "upsertFormula k d =
     (if list_ex isSpace k then ''{'' @ k @ ''}'' else k) @ '' = '' @
     (case map_of d k of
        Some (FStr s) \<Rightarrow> [CHR 0x22] @ s @ [CHR 0x22]
      | Some (FBool b) \<Rightarrow> (if b then ''TRUE'' else ''FALSE'')
      | v \<Rightarrow> templateString v)"
  by (simp add: upsertFormula_def formatColumnFilter_def formatValue_def
           split: option.splits fieldval.splits)

lemma upsert_requires:
  "upsert E thisConfig None data config w = (Inl KeyDataRequired, w)"
  "upsert E thisConfig key None config w = (Inl KeyDataRequired, w)"
  "upsert E thisConfig (Some []) data config w = (Inl KeyDataRequired, w)"
  by (simp_all add: upsert_def split: option.splits)

lemmas read_defs =
  read_def throttle_def sdkList_def selectOf_def keyCased_def applyTransform_def
  callTransform_def destructure_def shape_def demoEnv_def demoListOp_def demoCall_def

subsection \<open>C4: \<open>upsert\<close> reads, then creates or updates\<close>

text \<open>
  C4. For a present key \<open>k\<close> and present data \<open>d\<close>, on an instance as the constructor makes
  it: the formula is the key column, in braces when the name contains whitespace, then
  \<open> = \<close>, then \<open>d[k]\<close> with a string in double quotes and a boolean as \<open>TRUE\<close> or \<open>FALSE\<close>;
  \<open>upsert\<close> reads with that formula, which sends one \<open>select\<close> with it. When the read yields
  no row and the store answers the create of the one item \<open>d\<close> with the record \<open>r\<close>, \<open>upsert\<close>
  sends exactly one \<open>create\<close> call, with \<open>[d]\<close>, and returns the bare record \<open>r\<close> (shaped by
  \<open>complex\<close>). When the read yields rows, with ids \<open>ids\<close>, and the store accepts updates,
  \<open>upsert\<close> returns and sends the \<open>update\<close> calls for the items \<open>{ id, fields: d }\<close> of all
  the rows, in order, in chunks of at most 10.
\<close>

theorem upsert_reads_then_writes:
  assumes "t < nextA w" and "transformSettled (heap w t)"
    and "getId (getProp (heap w t) ''base'') = Some (getProp (heap w t) ''baseID'')"
    and "k \<noteq> []"
    and "mergeConfig (JRef t) config w = (Inr cfg, w1)"
    and "read E (JRef t) (Query [(''filterByFormula'', JStr (upsertFormula k d))]) cfg w1
           = (Inr rows, w2)"
  shows "upsertFormula k d =
           (if list_ex isSpace k then ''{'' @ k @ ''}'' else k) @ '' = '' @
           (case map_of d k of
              Some (FStr s) \<Rightarrow> [CHR 0x22] @ s @ [CHR 0x22]
            | Some (FBool b) \<Rightarrow> (if b then ''TRUE'' else ''FALSE'')
            | v \<Rightarrow> templateString v)
     \<and> map snd (sent w2) =
         map snd (sent w) @ [Select (getProp (spreadObj cfg w1) ''tableName'')
                               [(''filterByFormula'', JStr (upsertFormula k d))] ]
     \<and> (rows = []
          \<and> (\<forall>b. listOp E b (Create (getProp (spreadObj cfg w1) ''tableName'') [Some d]
                               (typecastParams (getProp (spreadObj cfg w1) ''typecast'')))
                     (remote w2) = (Inr [r], s3))
         \<longrightarrow> fst (upsert E (JRef t) (Some k) (Some d) config w)
               = Inr (Single (shape (getProp (spreadObj cfg w1) ''complex'') r))
           \<and> map snd (sent (snd (upsert E (JRef t) (Some k) (Some d) config w)))
               = map snd (sent w2) @ [Create (getProp (spreadObj cfg w1) ''tableName'') [Some d]
                                        (typecastParams (getProp (spreadObj cfg w1) ''typecast''))]
           \<and> remote (snd (upsert E (JRef t) (Some k) (Some d) config w)) = s3)
     \<and> (rows \<noteq> []
          \<and> mapE (recordId (getProp (spreadObj cfg w1) ''complex'') w2) rows = Inr ids
          \<and> (\<forall>b items s. \<exists>rs s'.
                listOp E b (Update (getProp (spreadObj cfg w1) ''tableName'') items
                              (typecastParams (getProp (spreadObj cfg w1) ''typecast''))) s
                  = (Inr rs, s'))
         \<longrightarrow> \<not> isl (fst (upsert E (JRef t) (Some k) (Some d) config w))
           \<and> map snd (sent (snd (upsert E (JRef t) (Some k) (Some d) config w)))
               = map snd (sent w2)
                 @ map (\<lambda>ch. Update (getProp (spreadObj cfg w1) ''tableName'') ch
                               (typecastParams (getProp (spreadObj cfg w1) ''typecast'')))
                       (chunkData (Arr (map (\<lambda>i. (i, Some d)) ids))))"
proof -
  from merge_effective [OF assms(1,2,3,5)] obtain c
    where cfg: "cfg = JRef c" and e1: "effective w1 t c" and s1: "sent w1 = sent w"
    by blast
  have rd: "read E (JRef t) (Query [(''filterByFormula'', JStr (upsertFormula k d))]) (JRef c) w1
              = (Inr rows, w2)"
    using assms(6) cfg by simp
  have so: "sameObjects w1 w2" by (rule read_frame [OF e1 rd])
  have e2: "effective w2 t c" by (rule effective_mono [OF e1 so])
  from e1 have "c < nextA w1" by (simp add: effective_def)
  with so have h: "heap w2 c = heap w1 c" by (simp add: sameObjects_def)
  have sp: "spreadObj cfg w1 = heap w1 c" "spreadObj cfg w2 = heap w1 c"
    by (simp_all add: cfg spreadObj_def h)
  have u: "upsert E (JRef t) (Some k) (Some d) config w =
             (if length rows = 0 then create E (JRef t) (Scalar (Some d)) (JRef c) w2
              else (case mapE (recordId (getProp (heap w1 c) ''complex'') w2) rows of
                      Inl e \<Rightarrow> (Inl e, w2)
                    | Inr ids \<Rightarrow>
                        update E (JRef t) (Batch (map (\<lambda>i. (i, Some d)) ids) (JRef c)) w2))"
    using assms(4,5) rd by (simp add: upsert_def cfg sp [unfolded cfg])
  have sel: "map snd (sent w2) =
         map snd (sent w) @ [Select (getProp (heap w1 c) ''tableName'')
                               [(''filterByFormula'', JStr (upsertFormula k d))] ]"
    using read_sent [OF e1 rd] by (simp add: s1)
  have zero: "fst (upsert E (JRef t) (Some k) (Some d) config w)
               = Inr (Single (shape (getProp (heap w1 c) ''complex'') r))
           \<and> map snd (sent (snd (upsert E (JRef t) (Some k) (Some d) config w)))
               = map snd (sent w2) @ [Create (getProp (heap w1 c) ''tableName'') [Some d]
                                        (typecastParams (getProp (heap w1 c) ''typecast''))]
           \<and> remote (snd (upsert E (JRef t) (Some k) (Some d) config w)) = s3"
    if "rows = []"
      and "\<forall>b. listOp E b (Create (getProp (heap w1 c) ''tableName'') [Some d]
                               (typecastParams (getProp (heap w1 c) ''typecast'')))
                     (remote w2) = (Inr [r], s3)"
    using create_one [OF e2, of E d r s3] that by (simp add: u h)
  have many: "\<not> isl (fst (upsert E (JRef t) (Some k) (Some d) config w))
           \<and> map snd (sent (snd (upsert E (JRef t) (Some k) (Some d) config w)))
               = map snd (sent w2)
                 @ map (\<lambda>ch. Update (getProp (heap w1 c) ''tableName'') ch
                               (typecastParams (getProp (heap w1 c) ''typecast'')))
                       (chunkData (Arr (map (\<lambda>i. (i, Some d)) ids)))"
    if "rows \<noteq> []"
      and "mapE (recordId (getProp (heap w1 c) ''complex'') w2) rows = Inr ids"
      and "\<forall>b items s. \<exists>rs s'.
                listOp E b (Update (getProp (heap w1 c) ''tableName'') items
                              (typecastParams (getProp (heap w1 c) ''typecast''))) s
                  = (Inr rs, s')"
    using update_many [OF e2, of E "map (\<lambda>i. (i, Some d)) ids"] that by (simp add: u h)
  show ?thesis
    unfolding sp using upsertFormula_shape sel zero many by blast
qed

theorem upsert_reads_then_writes_witness:
  "fst (upsert demoEnv (JRef 0) (Some ''ID'') (Some demoData) JUndefined demoWorld)
     = Inr (Single (Plain demoCreated))
   \<and> map snd (sent (snd (upsert demoEnv (JRef 0) (Some ''ID'') (Some demoData) JUndefined
                          demoWorld)))
     = [Select (JStr ''Table 1'') [(''filterByFormula'', JStr (upsertFormula ''ID'' demoData))],
        Create (JStr ''Table 1'') [Some demoData] None]
   \<and> upsertFormula ''ID'' demoData = ''ID = '' @ [CHR 0x22] @ ''1'' @ [CHR 0x22]
   \<and> \<not> isl (fst (upsert demoEnv (JRef 0) (Some ''ID'') (Some demoData) JUndefined
                   stockedWorld))
   \<and> map snd (sent (snd (upsert demoEnv (JRef 0) (Some ''ID'') (Some demoData) JUndefined
                          stockedWorld)))
     = [Select (JStr ''Table 1'') [(''filterByFormula'', JStr (upsertFormula ''ID'' demoData))],
        Update (JStr ''Table 1'')
          [(JStr ''rec1'', Some demoData), (JStr ''rec2'', Some demoData)] None]"
proof -
  let ?q = "Query [(''filterByFormula'', JStr (upsertFormula ''ID'' demoData))]"
  define wa where "wa = snd (read demoEnv (JRef 0) ?q (JRef 0) demoWorld)"
  define wb where "wb = snd (read demoEnv (JRef 0) ?q (JRef 0) stockedWorld)"
  have k: "''ID'' \<noteq> []" by simp
  have ia: "0 < nextA demoWorld" "transformSettled (heap demoWorld 0)"
    "getId (getProp (heap demoWorld 0) ''base'') = Some (getProp (heap demoWorld 0) ''baseID'')"
    by (simp_all add: demo_defs transformSettled_def)
  have ib: "0 < nextA stockedWorld" "transformSettled (heap stockedWorld 0)"
    "getId (getProp (heap stockedWorld 0) ''base'')
       = Some (getProp (heap stockedWorld 0) ''baseID'')"
    by (simp_all add: stockedWorld_def demo_defs transformSettled_def)
  have ma: "mergeConfig (JRef 0) JUndefined demoWorld = (Inr (JRef 0), demoWorld)"
    by (simp add: mergeConfig_def)
  have mb: "mergeConfig (JRef 0) JUndefined stockedWorld = (Inr (JRef 0), stockedWorld)"
    by (simp add: mergeConfig_def)
  have ra: "read demoEnv (JRef 0) ?q (JRef 0) demoWorld = (Inr [], wa)"
    unfolding wa_def by (simp add: read_defs demo_defs)
  have rb: "read demoEnv (JRef 0) ?q (JRef 0) stockedWorld
              = (Inr [Plain demoRec1, Plain demoRec2], wb)"
    unfolding wb_def by (simp add: read_defs demo_defs stockedWorld_def)
  have rema: "remote wa = []"
    unfolding wa_def by (simp add: read_defs demo_defs)
  have opts: "getProp (spreadObj (JRef 0) demoWorld) ''tableName'' = JStr ''Table 1''"
    "typecastParams (getProp (spreadObj (JRef 0) demoWorld) ''typecast'') = None"
    "getProp (spreadObj (JRef 0) demoWorld) ''complex'' = JBool False"
    "getProp (spreadObj (JRef 0) stockedWorld) ''tableName'' = JStr ''Table 1''"
    "typecastParams (getProp (spreadObj (JRef 0) stockedWorld) ''typecast'') = None"
    "getProp (spreadObj (JRef 0) stockedWorld) ''complex'' = JBool False"
    "sent demoWorld = []" "sent stockedWorld = []"
    by (simp_all add: demo_defs stockedWorld_def typecastParams_def)
  have la: "\<forall>b. listOp demoEnv b (Create (JStr ''Table 1'') [Some demoData] None) (remote wa)
                 = (Inr [demoCreated], [demoCreated])"
    by (simp add: rema demoEnv_def demoListOp_def demoCreated_def Let_def)
  have ids: "mapE (recordId (JBool False) wb) [Plain demoRec1, Plain demoRec2]
               = Inr [JStr ''rec1'', JStr ''rec2'']"
    by (simp add: recordId_def demoRec1_def demoRec2_def)
  have lb: "\<forall>b items s. \<exists>rs s'. listOp demoEnv b (Update (JStr ''Table 1'') items None) s
                                   = (Inr rs, s')"
    by (simp add: demoEnv_def demoListOp_def)
  have f: "upsertFormula ''ID'' demoData = ''ID = '' @ [CHR 0x22] @ ''1'' @ [CHR 0x22]"
    by (simp add: upsertFormula_def formatColumnFilter_def formatValue_def demoData_def
          isSpace_def)
  have ch: "chunkData (Arr [(JStr ''rec1'', Some demoData), (JStr ''rec2'', Some demoData)])
              = [ [(JStr ''rec1'', Some demoData), (JStr ''rec2'', Some demoData)] ]"
    by (simp add: chunkData_def)
  have za: "fst (upsert demoEnv (JRef 0) (Some ''ID'') (Some demoData) JUndefined demoWorld)
              = Inr (Single (Plain demoCreated))
     \<and> map snd (sent (snd (upsert demoEnv (JRef 0) (Some ''ID'') (Some demoData) JUndefined
                          demoWorld)))
       = [Select (JStr ''Table 1'') [(''filterByFormula'', JStr (upsertFormula ''ID'' demoData))],
          Create (JStr ''Table 1'') [Some demoData] None]"
    using upsert_reads_then_writes [OF ia k ma ra, of demoCreated "[demoCreated]"] la
    by (simp add: opts shape_def)
  have zb: "\<not> isl (fst (upsert demoEnv (JRef 0) (Some ''ID'') (Some demoData) JUndefined
                   stockedWorld))
     \<and> map snd (sent (snd (upsert demoEnv (JRef 0) (Some ''ID'') (Some demoData) JUndefined
                          stockedWorld)))
       = [Select (JStr ''Table 1'') [(''filterByFormula'', JStr (upsertFormula ''ID'' demoData))],
          Update (JStr ''Table 1'')
            [(JStr ''rec1'', Some demoData), (JStr ''rec2'', Some demoData)] None]"
    using upsert_reads_then_writes [OF ib k mb rb,
            where ids = "[JStr ''rec1'', JStr ''rec2'']"] ids lb
    by (simp add: opts ch)
  from za zb f show ?thesis by blast
qed

end
